theory Spec2Isabelle
  imports Main "HOL-Library.AList"
begin

section \<open>Python exceptions\<close>

text \<open>
  Every exception the modelled code can raise is a value of this type.  The constructor
  names are the Python exception classes; where one class is raised for two different
  reasons the constructors are told apart by a suffix.
\<close>

datatype error =
    KeyError
  | IndexError
  | TypeError
  | NameError
  | NotImplementedError
  | ValueError_points_vary
  | ValueError_empty_sequence
  | ValueError_processes

section \<open>parameters.py\<close>

subsection \<open>Parameter\<close>

text \<open>
  A \<^verbatim>\<open>Parameter\<close> object has the attributes \<^verbatim>\<open>name\<close>, \<^verbatim>\<open>value\<close> and
  \<^verbatim>\<open>distribution\<close>.  The value (a Python number or None) and the Chaospy distribution
  are opaque to \<^verbatim>\<open>parameters.py\<close>, so they are the type parameters \<open>'v\<close> and \<open>'d\<close>.
  The distribution attribute is \<open>None\<close> for Python's None.
\<close>

record ('v, 'd) Parameter =
  name :: string
  val :: 'v
  distribution :: "'d option"

text \<open>
  What the caller may pass as \<^verbatim>\<open>distribution\<close>: None, an instance of \<^verbatim>\<open>cp.Dist\<close>, a
  callable (which, applied to the value, returns a \<^verbatim>\<open>cp.Dist\<close>, here \<open>Some\<close>, or
  something else, here \<open>None\<close>), or any other object.
\<close>

datatype ('v, 'd) dist_arg =
    DNone
  | DDist 'd
  | DCallable "'v \<Rightarrow> 'd option"
  | DOther

text \<open>The setter of the \<^verbatim>\<open>distribution\<close> property (lines 84-95).\<close>

fun distribution_setter :: "'v \<Rightarrow> ('v, 'd) dist_arg \<Rightarrow> error + 'd option" where
  "distribution_setter v DNone = Inr None"
| "distribution_setter v (DDist d) = Inr (Some d)"
| "distribution_setter v (DCallable f) =
     (case f v of None \<Rightarrow> Inl TypeError | Some d \<Rightarrow> Inr (Some d))"
| "distribution_setter v DOther = Inl TypeError"

text \<open>\<^verbatim>\<open>Parameter.__init__\<close> (lines 39-61).\<close>

definition Parameter_init ::
  "string \<Rightarrow> 'v \<Rightarrow> ('v, 'd) dist_arg \<Rightarrow> error + ('v, 'd) Parameter" where
  "Parameter_init n v da =
     (case distribution_setter v da of
        Inl e \<Rightarrow> Inl e
      | Inr d \<Rightarrow> Inr \<lparr>name = n, val = v, distribution = d\<rparr>)"

subsection \<open>Parameters\<close>

text \<open>
  \<^verbatim>\<open>self.parameters\<close> is an \<^verbatim>\<open>OrderedDict\<close> from names to Parameter objects: an
  association list in insertion order.  Assigning to a key that is present replaces the
  value in place, assigning to a new key appends, which is \<^const>\<open>AList.update\<close>.
  The joint distribution is stored and never read in this file.
\<close>

record ('v, 'd) Parameters =
  parameters :: "(string \<times> ('v, 'd) Parameter) list"
  joint_distribution :: "'d option"

text \<open>
  An entry of \<^verbatim>\<open>parameterlist\<close>: a Parameter object, or a raw list
  \<^verbatim>\<open>[name, value, distribution]\<close>.
\<close>

datatype ('v, 'd) entry =
    Obj "('v, 'd) Parameter"
  | Raw string 'v "('v, 'd) dist_arg"

text \<open>
  The loop of \<^verbatim>\<open>Parameters.__init__\<close> (lines 207-218).  A TypeError raised by
  \<^verbatim>\<open>Parameter(*i)\<close> is caught, given a longer message and raised again, so it is still
  a TypeError.
\<close>

fun init_loop ::
  "('v, 'd) entry list \<Rightarrow> (string \<times> ('v, 'd) Parameter) list
     \<Rightarrow> error + (string \<times> ('v, 'd) Parameter) list" where
  "init_loop [] ps = Inr ps"
| "init_loop (Obj p # is) ps = init_loop is (AList.update (name p) p ps)"
| "init_loop (Raw n v da # is) ps =
     (case Parameter_init n v da of
        Inl e \<Rightarrow> Inl e
      | Inr p \<Rightarrow> init_loop is (AList.update n p ps))"

definition Parameters_init ::
  "('v, 'd) entry list \<Rightarrow> 'd option \<Rightarrow> error + ('v, 'd) Parameters" where
  "Parameters_init parameterlist dist =
     (case init_loop parameterlist [] of
        Inl e \<Rightarrow> Inl e
      | Inr ps \<Rightarrow> Inr \<lparr>parameters = ps, joint_distribution = dist\<rparr>)"

text \<open>\<^verbatim>\<open>Parameters.__getitem__\<close> (line 235): a missing key raises KeyError.\<close>

definition getitem :: "('v, 'd) Parameters \<Rightarrow> string \<Rightarrow> error + ('v, 'd) Parameter" where
  "getitem ps n =
     (case map_of (parameters ps) n of None \<Rightarrow> Inl KeyError | Some p \<Rightarrow> Inr p)"

text \<open>\<^verbatim>\<open>Parameters.__iter__\<close> (line 248): the values of the dictionary, in order.\<close>

definition iter :: "('v, 'd) Parameters \<Rightarrow> ('v, 'd) Parameter list" where
  "iter ps = map snd (parameters ps)"

text \<open>
  The attribute names \<^verbatim>\<open>get_from_uncertain\<close> documents, and what \<^verbatim>\<open>getattr\<close> returns
  for each.
\<close>

datatype attribute = Name | Value | Distribution

datatype ('v, 'd) attr_value = AName string | AValue 'v | ADistribution "'d option"

fun getattr :: "('v, 'd) Parameter \<Rightarrow> attribute \<Rightarrow> ('v, 'd) attr_value" where
  "getattr p Name = AName (name p)"
| "getattr p Value = AValue (val p)"
| "getattr p Distribution = ADistribution (distribution p)"

text \<open>
  \<^verbatim>\<open>Parameters.get_from_uncertain\<close> (lines 354-358): the loop appends to \<^verbatim>\<open>items\<close>,
  the accumulator.
\<close>

fun uncertain_loop ::
  "('v, 'd) Parameter list \<Rightarrow> attribute \<Rightarrow> ('v, 'd) attr_value list
     \<Rightarrow> ('v, 'd) attr_value list" where
  "uncertain_loop [] a items = items"
| "uncertain_loop (p # ps) a items =
     (if distribution p \<noteq> None then uncertain_loop ps a (items @ [getattr p a])
      else uncertain_loop ps a items)"

definition get_from_uncertain ::
  "('v, 'd) Parameters \<Rightarrow> attribute \<Rightarrow> ('v, 'd) attr_value list" where
  "get_from_uncertain ps a = uncertain_loop (map snd (parameters ps)) a []"

text \<open>
  \<^verbatim>\<open>Parameters\<close> derives from \<^verbatim>\<open>collections.MutableMapping\<close> and does not define
  \<^verbatim>\<open>__contains__\<close>, so \<^verbatim>\<open>x in parameters\<close> runs the method it inherits from the
  standard library's \<^verbatim>\<open>Mapping\<close>:
  \<^verbatim>\<open>
  def __contains__(self, key):
      try:
          self[key]
      except KeyError:
          return False
      else:
          return True
  \<close>
  The operand is any object; here a string or a Parameter object.  The keys of the
  dictionary are strings, and a Parameter object (hashed by identity, with no
  \<^verbatim>\<open>__eq__\<close>) equals no string, so looking one up raises KeyError.
\<close>

datatype ('v, 'd) operand = Str string | Par "('v, 'd) Parameter"

fun getitem_operand ::
  "('v, 'd) Parameters \<Rightarrow> ('v, 'd) operand \<Rightarrow> error + ('v, 'd) Parameter" where
  "getitem_operand ps (Str n) = getitem ps n"
| "getitem_operand ps (Par p) = Inl KeyError"

definition contains :: "('v, 'd) Parameters \<Rightarrow> ('v, 'd) operand \<Rightarrow> error + bool" where
  "contains ps x =
     (case getitem_operand ps x of
        Inl KeyError \<Rightarrow> Inr False
      | Inl e \<Rightarrow> Inl e
      | Inr p \<Rightarrow> Inr True)"

text \<open>
  A distribution object for the examples: \<^verbatim>\<open>cp.Uniform(lower, upper)\<close>, as in
  \<^verbatim>\<open>examples/brunel/uq_brunel_function.py\<close>.
\<close>

datatype dist = Uniform int int

section \<open>runmodel.py\<close>

subsection \<open>Values exchanged with numpy and the workers\<close>

text \<open>
  A numpy array is its shape and its elements in row-major order; a scalar result is an
  array of shape \<open>[]\<close>.  The element type is a parameter: \<^verbatim>\<open>runmodel.py\<close> moves the
  numbers around and never computes with them.
\<close>

datatype 'a ndarray = NdArray (shape: "nat list") (elems: "'a list")

definition ndim :: "'a ndarray \<Rightarrow> nat" where
  "ndim a = length (shape a)"

text \<open>A time basis is an array or Python's None.\<close>

type_synonym 'a tbasis = "'a ndarray option"

text \<open>
  \<^verbatim>\<open>len(s)\<close>: the first dimension of an array; None and a 0-dimensional array have no
  length (TypeError).
\<close>

fun len :: "'a tbasis \<Rightarrow> error + nat" where
  "len None = Inl TypeError"
| "len (Some a) = (case shape a of [] \<Rightarrow> Inl TypeError | n # ds \<Rightarrow> Inr n)"

text \<open>
  What a worker returns for one feature: the tuple \<^verbatim>\<open>(t, U)\<close> or
  \<^verbatim>\<open>(t, U, interpolation)\<close>.  The interpolation is a callable taking a time basis, or
  None.  Indexing a pair with 2 raises IndexError.
\<close>

datatype 'a result_tuple =
    Tuple2 "'a tbasis" "'a ndarray"
  | Tuple3 "'a tbasis" "'a ndarray" "('a tbasis \<Rightarrow> 'a ndarray) option"

fun item0 :: "'a result_tuple \<Rightarrow> 'a tbasis" where
  "item0 (Tuple2 t u) = t"
| "item0 (Tuple3 t u i) = t"

fun item1 :: "'a result_tuple \<Rightarrow> 'a ndarray" where
  "item1 (Tuple2 t u) = u"
| "item1 (Tuple3 t u i) = u"

fun item2 :: "'a result_tuple \<Rightarrow> error + ('a tbasis \<Rightarrow> 'a ndarray) option" where
  "item2 (Tuple2 t u) = Inl IndexError"
| "item2 (Tuple3 t u i) = Inr i"

text \<open>
  The result of one node is a dictionary from feature names to such tuples; its keys are
  iterated in the order of the list.
\<close>

type_synonym 'a node_result = "(string \<times> 'a result_tuple) list"

text \<open>
  A stored response collection \<^verbatim>\<open>U[feature]\<close> is the Python list built by
  \<^verbatim>\<open>append\<close>, or what \<^verbatim>\<open>np.array\<close> made of such a list; both hold one entry per
  node.  \<^verbatim>\<open>np.array\<close> of an array is that array.
\<close>

datatype 'a ustore = PyList "'a ndarray list" | NpArray "'a ndarray list"

fun rows :: "'a ustore \<Rightarrow> 'a ndarray list" where
  "rows (PyList us) = us"
| "rows (NpArray us) = us"

fun np_array :: "'a ustore \<Rightarrow> 'a ustore" where
  "np_array (PyList us) = NpArray us"
| "np_array (NpArray us) = NpArray us"

text \<open>
  \<^verbatim>\<open>np.argmax\<close> of a list of lengths: the index of the first occurrence of the maximum;
  an empty list raises ValueError.  The loop carries the current index, the best index
  and the best value.
\<close>

fun argmax_loop :: "nat list \<Rightarrow> nat \<Rightarrow> nat \<Rightarrow> nat \<Rightarrow> nat" where
  "argmax_loop [] i best bv = best"
| "argmax_loop (x # xs) i best bv =
     (if bv < x then argmax_loop xs (Suc i) i x else argmax_loop xs (Suc i) best bv)"

definition argmax :: "nat list \<Rightarrow> error + nat" where
  "argmax xs = (case xs of [] \<Rightarrow> Inl ValueError_empty_sequence | x # ys \<Rightarrow> Inr (argmax_loop ys 1 0 x))"

subsection \<open>The result store\<close>

text \<open>
  Modelled from the spec: the class \<^verbatim>\<open>Data\<close> (imported from \<^verbatim>\<open>uncertainty\<close>) is not
  among the sources.  The spec's Result Store holds, per feature name, a time basis
  \<^verbatim>\<open>t[feature]\<close> and a response collection \<^verbatim>\<open>U[feature]\<close>, and the features classified
  as 0-D, 1-D and 2-D; \<^verbatim>\<open>runmodel.py\<close> reads the attributes \<^verbatim>\<open>features_0d\<close>,
  \<^verbatim>\<open>features_1d\<close>, \<^verbatim>\<open>features_2d\<close>, \<^verbatim>\<open>t\<close>, \<^verbatim>\<open>U\<close> and
  \<^verbatim>\<open>uncertain_parameters\<close>.  The fields \<open>data_t\<close> and \<open>data_U\<close> are the dictionaries
  \<^verbatim>\<open>t\<close> and \<^verbatim>\<open>U\<close>; \<open>data_t d f = Some None\<close> says that \<^verbatim>\<open>t[f]\<close> is None.
\<close>

record 'a Data =
  uncertain_parameters :: "string list"
  features_0d :: "string list"
  features_1d :: "string list"
  features_2d :: "string list"
  data_t :: "string \<rightharpoonup> 'a tbasis"
  data_U :: "string \<rightharpoonup> 'a ustore"

text \<open>
  Modelled from the spec: \<^verbatim>\<open>Data.resetValues\<close> is not among the sources.  The spec: the
  store ``is reset (cleared) at the start of every run''.
\<close>

definition resetValues :: "'a Data \<Rightarrow> 'a Data" where
  "resetValues d =
     d\<lparr>features_0d := [], features_1d := [], features_2d := [],
       data_t := Map.empty, data_U := Map.empty\<rparr>"

text \<open>
  Modelled from the spec: \<^verbatim>\<open>Data.setFeatures\<close> is not among the sources.  The spec:
  ``every feature name is classified, at result-collection time, into exactly one of
  0-D, 1-D, 2-D based on the shape of its first observed values''.  The argument is the
  first node's result; values of more than two dimensions count as 2-D.
\<close>

definition setFeatures :: "'a node_result \<Rightarrow> 'a Data \<Rightarrow> 'a Data" where
  "setFeatures results d =
     d\<lparr>features_0d := map fst (filter (\<lambda>(f, r). ndim (item1 r) = 0) results),
       features_1d := map fst (filter (\<lambda>(f, r). ndim (item1 r) = 1) results),
       features_2d := map fst (filter (\<lambda>(f, r). 2 \<le> ndim (item1 r)) results)\<rparr>"

subsection \<open>RunModel\<close>

text \<open>
  The attributes of a \<^verbatim>\<open>RunModel\<close> object.  Of the model and the features only what
  the file reads is kept: \<^verbatim>\<open>model.adaptive_model\<close>, and the values of \<^verbatim>\<open>model.cmd()\<close>,
  \<^verbatim>\<open>features.cmd()\<close> and \<^verbatim>\<open>features.kwargs()\<close>, which are opaque here.
\<close>

record ('a, 'm, 'f, 'k) RunModel =
  model_cmd :: 'm
  adaptive_model :: bool
  features_cmd :: 'f
  features_kwargs :: 'k
  CPUs :: nat
  supress_model_output :: bool
  supress_model_graphics :: bool
  data :: "'a Data"

text \<open>\<^verbatim>\<open>performInterpolation\<close> (lines 30-44), loop by loop.\<close>

fun lengths_loop :: "'a tbasis list \<Rightarrow> nat list \<Rightarrow> error + nat list" where
  "lengths_loop [] lengths = Inr lengths"
| "lengths_loop (s # ts) lengths =
     (case len s of Inl e \<Rightarrow> Inl e | Inr n \<Rightarrow> lengths_loop ts (lengths @ [n]))"

text \<open>Calling None raises TypeError.\<close>

fun interpolation_loop ::
  "('a tbasis \<Rightarrow> 'a ndarray) option list \<Rightarrow> 'a tbasis \<Rightarrow> 'a ndarray list
     \<Rightarrow> error + 'a ndarray list" where
  "interpolation_loop [] t interpolated_solves = Inr interpolated_solves"
| "interpolation_loop (None # is) t interpolated_solves = Inl TypeError"
| "interpolation_loop (Some interp # is) t interpolated_solves =
     interpolation_loop is t (interpolated_solves @ [interp t])"

definition performInterpolation ::
  "'a tbasis list \<Rightarrow> ('a tbasis \<Rightarrow> 'a ndarray) option list
     \<Rightarrow> error + ('a tbasis \<times> 'a ustore)" where
  "performInterpolation ts interpolation =
     (case lengths_loop ts [] of
        Inl e \<Rightarrow> Inl e
      | Inr lengths \<Rightarrow>
          (case argmax lengths of
             Inl e \<Rightarrow> Inl e
           | Inr index_max_len \<Rightarrow>
               (let t = ts ! index_max_len in
                case interpolation_loop interpolation t [] of
                  Inl e \<Rightarrow> Inl e
                | Inr interpolated_solves \<Rightarrow> Inr (t, NpArray interpolated_solves))))"

text \<open>
  \<^verbatim>\<open>isAdaptiveError\<close> (lines 139-150).  It reads the store, \<^verbatim>\<open>self.data.U\<close>: a missing
  key raises KeyError, an empty collection IndexError at \<^verbatim>\<open>[0]\<close>.
\<close>

fun shapes_loop :: "'a ndarray \<Rightarrow> 'a ndarray list \<Rightarrow> error option" where
  "shapes_loop u_prev [] = None"
| "shapes_loop u_prev (u # us) =
     (if shape u_prev \<noteq> shape u then Some ValueError_points_vary else shapes_loop u us)"

fun isAdaptiveError_loop :: "'a Data \<Rightarrow> string list \<Rightarrow> error option" where
  "isAdaptiveError_loop d [] = None"
| "isAdaptiveError_loop d (feature # fs) =
     (case data_U d feature of
        None \<Rightarrow> Some KeyError
      | Some store \<Rightarrow>
          (case rows store of
             [] \<Rightarrow> Some IndexError
           | u_prev # us \<Rightarrow>
               (case shapes_loop u_prev us of
                  Some e \<Rightarrow> Some e
                | None \<Rightarrow> isAdaptiveError_loop d fs)))"

definition isAdaptiveError :: "bool \<Rightarrow> 'a Data \<Rightarrow> error option" where
  "isAdaptiveError adaptive d =
     (if \<not> adaptive then isAdaptiveError_loop d (features_1d d @ features_2d d) else None)"

text \<open>
  \<^verbatim>\<open>storeResults\<close> (lines 48-95).  The store is mutated in place, so an exception leaves
  it as it is at the raise: a failing call returns the error with that store.

  The inner loop \<^verbatim>\<open>for solved in solves: self.data.U[feature].append(solved[feature][1])\<close>
  returns the list as far as it was built.
\<close>

fun append_loop ::
  "string \<Rightarrow> 'a node_result list \<Rightarrow> 'a ndarray list \<Rightarrow> error option \<times> 'a ndarray list" where
  "append_loop feature [] us = (None, us)"
| "append_loop feature (solved # rest) us =
     (case map_of solved feature of
        None \<Rightarrow> (Some KeyError, us)
      | Some r \<Rightarrow> append_loop feature rest (us @ [item1 r]))"

text \<open>
  The \<^verbatim>\<open>else\<close> branch of the 2-D and of the 1-D loop (lines 60-64 and 78-81): the time
  basis of the first node, and the list of every node's values.
\<close>

definition store_from_first ::
  "'a node_result list \<Rightarrow> string \<Rightarrow> 'a Data \<Rightarrow> (error \<times> 'a Data) + 'a Data" where
  "store_from_first solves feature d =
     (case solves of
        [] \<Rightarrow> Inl (IndexError, d)
      | s0 # rest \<Rightarrow>
          (case map_of s0 feature of
             None \<Rightarrow> Inl (KeyError, d)
           | Some r \<Rightarrow>
               (let d1 = d\<lparr>data_t := (data_t d)(feature \<mapsto> item0 r)\<rparr>;
                    (err, us) = append_loop feature solves [];
                    d2 = d1\<lparr>data_U := (data_U d1)(feature \<mapsto> PyList us)\<rparr>
                in case err of Some e \<Rightarrow> Inl (e, d2) | None \<Rightarrow> Inr d2)))"

text \<open>The body of the 2-D loop (lines 56-64).\<close>

definition body_2d ::
  "bool \<Rightarrow> 'a node_result list \<Rightarrow> string \<Rightarrow> 'a Data \<Rightarrow> (error \<times> 'a Data) + 'a Data" where
  "body_2d adaptive solves feature d =
     (if adaptive \<and> feature = ''directComparison'' then Inl (NotImplementedError, d)
      else store_from_first solves feature d)"

text \<open>The inner loop of the adaptive branch of the 1-D loop (lines 72-74).\<close>

fun gather_loop ::
  "string \<Rightarrow> 'a node_result list
     \<Rightarrow> 'a tbasis list \<times> ('a tbasis \<Rightarrow> 'a ndarray) option list
     \<Rightarrow> error + 'a tbasis list \<times> ('a tbasis \<Rightarrow> 'a ndarray) option list" where
  "gather_loop feature [] acc = Inr acc"
| "gather_loop feature (solved # rest) (ts, interpolation) =
     (case map_of solved feature of
        None \<Rightarrow> Inl KeyError
      | Some r \<Rightarrow>
          (case item2 r of
             Inl e \<Rightarrow> Inl e
           | Inr interp \<Rightarrow> gather_loop feature rest (ts @ [item0 r], interpolation @ [interp])))"

text \<open>The body of the 1-D loop (lines 69-81).\<close>

definition body_1d ::
  "bool \<Rightarrow> 'a node_result list \<Rightarrow> string \<Rightarrow> 'a Data \<Rightarrow> (error \<times> 'a Data) + 'a Data" where
  "body_1d adaptive solves feature d =
     (if adaptive \<and> feature = ''directComparison'' then
        (case gather_loop feature solves ([], []) of
           Inl e \<Rightarrow> Inl (e, d)
         | Inr (ts, interpolation) \<Rightarrow>
             (case performInterpolation ts interpolation of
                Inl e \<Rightarrow> Inl (e, d)
              | Inr (t, interpolated) \<Rightarrow>
                  Inr (d\<lparr>data_t := (data_t d)(feature \<mapsto> t),
                         data_U := (data_U d)(feature \<mapsto> interpolated)\<rparr>)))
      else store_from_first solves feature d)"

text \<open>The body of the 0-D loop (lines 87-90).\<close>

definition body_0d ::
  "'a node_result list \<Rightarrow> string \<Rightarrow> 'a Data \<Rightarrow> (error \<times> 'a Data) + 'a Data" where
  "body_0d solves feature d =
     (let d1 = d\<lparr>data_t := (data_t d)(feature \<mapsto> None)\<rparr>;
          (err, us) = append_loop feature solves [];
          d2 = d1\<lparr>data_U := (data_U d1)(feature \<mapsto> PyList us)\<rparr>
      in case err of Some e \<Rightarrow> Inl (e, d2) | None \<Rightarrow> Inr d2)"

text \<open>
  A loop \<^verbatim>\<open>for feature in ...\<close> of \<^verbatim>\<open>storeResults\<close>.  The loop variable stays bound
  after the loop, and line 95 reads it: the state carries its last value, which is
  \<open>None\<close> as long as no loop has run its body.
\<close>

fun for_features ::
  "(string \<Rightarrow> 'a Data \<Rightarrow> (error \<times> 'a Data) + 'a Data) \<Rightarrow> string list
     \<Rightarrow> string option \<times> 'a Data \<Rightarrow> (error \<times> 'a Data) + string option \<times> 'a Data" where
  "for_features body [] st = Inr st"
| "for_features body (feature # fs) (bound, d) =
     (case body feature d of
        Inl e \<Rightarrow> Inl e
      | Inr d' \<Rightarrow> for_features body fs (Some feature, d'))"

text \<open>
  Line 95, after the loops: \<^verbatim>\<open>self.data.U[feature] = np.array(self.data.U[feature])\<close>.
  With no feature at all the name \<^verbatim>\<open>feature\<close> is unbound.  A list of arrays of
  different shapes becomes an array of objects.
\<close>

definition convert_last :: "string option \<times> 'a Data \<Rightarrow> (error \<times> 'a Data) + 'a Data" where
  "convert_last st =
     (case st of
        (None, d) \<Rightarrow> Inl (NameError, d)
      | (Some feature, d) \<Rightarrow>
          (case data_U d feature of
             None \<Rightarrow> Inl (KeyError, d)
           | Some u \<Rightarrow> Inr (d\<lparr>data_U := (data_U d)(feature \<mapsto> np_array u)\<rparr>)))"

definition storeResults ::
  "bool \<Rightarrow> 'a node_result list \<Rightarrow> 'a Data \<Rightarrow> (error \<times> 'a Data) + 'a Data" where
  "storeResults adaptive solves d =
     (case solves of
        [] \<Rightarrow> Inl (IndexError, d)
      | s0 # rest \<Rightarrow>
          (let d1 = setFeatures s0 d in
           case isAdaptiveError adaptive d1 of
             Some e \<Rightarrow> Inl (e, d1)
           | None \<Rightarrow>
               (case for_features (body_2d adaptive solves) (features_2d d1) (None, d1) of
                  Inl e \<Rightarrow> Inl e
                | Inr st2 \<Rightarrow>
                    (case for_features (body_1d adaptive solves) (features_1d (snd st2)) st2 of
                       Inl e \<Rightarrow> Inl e
                     | Inr st1 \<Rightarrow>
                         (case for_features (body_0d solves) (features_0d (snd st1)) st1 of
                            Inl e \<Rightarrow> Inl e
                          | Inr st0 \<Rightarrow> convert_last st0)))))"

text \<open>
  \<^verbatim>\<open>evaluateNodeFunctionList\<close> (lines 98-109): one task per node, in node order.  The
  argument is \<^verbatim>\<open>nodes.T\<close>, the sequence of grid nodes.
\<close>

type_synonym ('n, 'm, 'f, 'k) task = "'m \<times> bool \<times> bool \<times> 'n \<times> string list \<times> 'f \<times> 'k"

fun evaluateNodeFunctionList_loop ::
  "('a, 'm, 'f, 'k) RunModel \<Rightarrow> 'n list \<Rightarrow> ('n, 'm, 'f, 'k) task list
     \<Rightarrow> ('n, 'm, 'f, 'k) task list" where
  "evaluateNodeFunctionList_loop self [] data_list = data_list"
| "evaluateNodeFunctionList_loop self (node # nodes) data_list =
     evaluateNodeFunctionList_loop self nodes
       (data_list @ [(model_cmd self, supress_model_output self, adaptive_model self, node,
                      uncertain_parameters (data self), features_cmd self, features_kwargs self)])"

definition evaluateNodeFunctionList ::
  "('a, 'm, 'f, 'k) RunModel \<Rightarrow> 'n list \<Rightarrow> ('n, 'm, 'f, 'k) task list" where
  "evaluateNodeFunctionList self nodes = evaluateNodeFunctionList_loop self nodes []"

text \<open>
  \<^verbatim>\<open>evaluateNodes\<close> (lines 113-136) acts on the virtual display and on the worker pool.
  The model returns, next to the result, the trace of these actions in program order.
  The worker function \<^verbatim>\<open>evaluateNodeFunction\<close> is not among the sources; it is the
  parameter \<open>f\<close>, which returns a node's result or the exception the worker raised.
  The iterator of \<^verbatim>\<open>pool.imap\<close> hands over the outcomes in task order and raises a
  worker's exception in the main process when its outcome is due; the loop stops there,
  and the statements after the loop are not reached.

  \<^verbatim>\<open>mp.Pool(processes=self.CPUs)\<close> (line 120) raises ValueError, ``Number of processes
  must be at least 1'', when the number is less than 1, and no pool exists then; the
  display has been started by that time, and the statements that follow are not reached.
\<close>

datatype 'task event =
    Xvfb_start
  | Xvfb_stop
  | Pool_create nat
  | Pool_imap "'task list"
  | Solves_append nat
  | Pool_close

definition Pool :: "nat \<Rightarrow> error + 'task event" where
  "Pool processes = (if processes < 1 then Inl ValueError_processes else Inr (Pool_create processes))"

fun imap_loop ::
  "(error + 'r) list \<Rightarrow> 'r list \<times> 'task event list
     \<Rightarrow> error option \<times> 'r list \<times> 'task event list" where
  "imap_loop [] (solves, tr) = (None, solves, tr)"
| "imap_loop (Inl e # outcomes) (solves, tr) = (Some e, solves, tr)"
| "imap_loop (Inr result # outcomes) (solves, tr) =
     imap_loop outcomes (solves @ [result], tr @ [Solves_append (length solves)])"

definition evaluateNodes ::
  "(('n, 'm, 'f, 'k) task \<Rightarrow> error + 'a node_result) \<Rightarrow> ('a, 'm, 'f, 'k) RunModel \<Rightarrow> 'n list
     \<Rightarrow> ('n, 'm, 'f, 'k) task event list \<times> (error + 'a node_result list)" where
  "evaluateNodes f self nodes =
     (let tr0 = (if supress_model_graphics self then [Xvfb_start] else [])
      in case Pool (CPUs self) of
           Inl e \<Rightarrow> (tr0, Inl e)
         | Inr pool \<Rightarrow>
             (let tr1 = tr0 @ [pool];
                  tasks = evaluateNodeFunctionList self nodes;
                  tr2 = tr1 @ [Pool_imap tasks];
                  (err, solves, tr3) = imap_loop (map f tasks) ([], tr2)
              in case err of
                   Some e \<Rightarrow> (tr3, Inl e)
                 | None \<Rightarrow>
                     (let tr4 = tr3 @ [Pool_close];
                          tr5 = tr4 @ (if supress_model_graphics self then [Xvfb_stop] else [])
                      in (tr5, Inr solves))))"

text \<open>\<^verbatim>\<open>run\<close> (lines 153-160).\<close>

definition run ::
  "(('n, 'm, 'f, 'k) task \<Rightarrow> error + 'a node_result) \<Rightarrow> ('a, 'm, 'f, 'k) RunModel \<Rightarrow> 'n list
     \<Rightarrow> ('n, 'm, 'f, 'k) task event list \<times> ((error \<times> 'a Data) + 'a Data)" where
  "run f self nodes =
     (let self1 = self\<lparr>data := resetValues (data self)\<rparr>;
          (tr, r) = evaluateNodes f self1 nodes
      in case r of
           Inl e \<Rightarrow> (tr, Inl (e, data self1))
         | Inr solves \<Rightarrow> (tr, storeResults (adaptive_model self1) solves (data self1)))"

subsection \<open>Outcomes and example runs\<close>

text \<open>The exception a call of \<^const>\<open>storeResults\<close> or \<^const>\<open>run\<close> ended with, if any.\<close>


definition raised :: "(error \<times> 'a Data) + 'a Data \<Rightarrow> error option" where
  "raised r = (case r of Inl (e, d) \<Rightarrow> Some e | Inr d \<Rightarrow> None)"


text \<open>
  A run over two nodes of a model that is not adaptive, although its one feature has
  three points at the first node and two at the second.
\<close>

definition node0 :: "int node_result" where
  "node0 = [(''directComparison'', Tuple2 (Some (NdArray [3] [0, 1, 2])) (NdArray [3] [5, 6, 7]))]"
definition node1 :: "int node_result" where
  "node1 = [(''directComparison'', Tuple2 (Some (NdArray [2] [0, 1])) (NdArray [2] [5, 6]))]"

definition rm0 :: "(int, unit, unit, unit) RunModel" where
  "rm0 = \<lparr>model_cmd = (), adaptive_model = False, features_cmd = (), features_kwargs = (),
      CPUs = 1, supress_model_output = True, supress_model_graphics = True,
      data = \<lparr>uncertain_parameters = [''a''], features_0d = [], features_1d = [], features_2d = [],
               data_t = Map.empty, data_U = Map.empty\<rparr>\<rparr>"

fun worker0 :: "(nat, unit, unit, unit) task \<Rightarrow> error + int node_result" where
  "worker0 (m, so, ad, node, ps, fc, fk) = (if node = 0 then Inr node0 else Inr node1)"

text \<open>The store a call leaves behind, whether it returned or raised.\<close>

definition store_after :: "(error \<times> 'a Data) + 'a Data \<Rightarrow> 'a Data" where
  "store_after r = (case r of Inl (e, d) \<Rightarrow> d | Inr d \<Rightarrow> d)"

text \<open>A worker that evaluates the first node and raises at every other one.\<close>

fun worker_fails :: "(nat, unit, unit, unit) task \<Rightarrow> error + int node_result" where
  "worker_fails (m, so, ad, node, ps, fc, fk) = (if node = 0 then Inr node0 else Inl TypeError)"

text \<open>
  An interpolant for the examples: a callable that returns an array of the shape of its
  argument.
\<close>

definition times2 :: "int tbasis \<Rightarrow> int ndarray" where
  "times2 t = (case t of None \<Rightarrow> NdArray [] [] | Some a \<Rightarrow> NdArray (shape a) (map (\<lambda>x. 2 * x) (elems a)))"

text \<open>
  A run of an adaptive model over two nodes, with two 1-D features, a 2-D feature and two
  0-D features; the second node has three time points where the first has two.
\<close>

definition adaptive_node0 :: "int node_result" where
  "adaptive_node0 =
     [(''directComparison'', Tuple3 (Some (NdArray [2] [0, 1])) (NdArray [2] [0, 2]) (Some times2)),
      (''amplitude'', Tuple2 (Some (NdArray [2] [0, 1])) (NdArray [2] [7, 8])),
      (''voltage'', Tuple2 (Some (NdArray [2] [0, 1])) (NdArray [2, 2] [1, 2, 3, 4])),
      (''nr_spikes'', Tuple2 None (NdArray [] [3])),
      (''rate'', Tuple2 None (NdArray [] [5]))]"

definition adaptive_node1 :: "int node_result" where
  "adaptive_node1 =
     [(''directComparison'', Tuple3 (Some (NdArray [3] [0, 1, 2])) (NdArray [3] [0, 2, 4]) (Some times2)),
      (''amplitude'', Tuple2 (Some (NdArray [3] [0, 1, 2])) (NdArray [3] [7, 8, 9])),
      (''voltage'', Tuple2 (Some (NdArray [3] [0, 1, 2])) (NdArray [2, 3] [1, 2, 3, 4, 5, 6])),
      (''nr_spikes'', Tuple2 None (NdArray [] [4])),
      (''rate'', Tuple2 None (NdArray [] [6]))]"

definition rm_adaptive :: "(int, unit, unit, unit) RunModel" where
  "rm_adaptive = rm0\<lparr>adaptive_model := True\<rparr>"

fun worker_adaptive :: "(nat, unit, unit, unit) task \<Rightarrow> error + int node_result" where
  "worker_adaptive (m, so, ad, node, ps, fc, fk) =
     (if node = 0 then Inr adaptive_node0 else Inr adaptive_node1)"

text \<open>The store this run ends with.\<close>

definition ex_store :: "int Data" where
  "ex_store = \<lparr>uncertain_parameters = [''a''],
      features_0d = [''nr_spikes'', ''rate''],
      features_1d = [''directComparison'', ''amplitude''],
      features_2d = [''voltage''],
      data_t = [''voltage'' \<mapsto> Some (NdArray [2] [0, 1]),
                ''directComparison'' \<mapsto> Some (NdArray [3] [0, 1, 2]),
                ''amplitude'' \<mapsto> Some (NdArray [2] [0, 1]),
                ''nr_spikes'' \<mapsto> None,
                ''rate'' \<mapsto> None],
      data_U = [''voltage'' \<mapsto> PyList [NdArray [2, 2] [1, 2, 3, 4], NdArray [2, 3] [1, 2, 3, 4, 5, 6]],
                ''directComparison'' \<mapsto> NpArray [NdArray [3] [0, 2, 4], NdArray [3] [0, 2, 4]],
                ''amplitude'' \<mapsto> PyList [NdArray [2] [7, 8], NdArray [3] [7, 8, 9]],
                ''nr_spikes'' \<mapsto> PyList [NdArray [] [3], NdArray [] [4]],
                ''rate'' \<mapsto> NpArray [NdArray [] [5], NdArray [] [6]]]\<rparr>"




subsection \<open>Auxiliary predicates on the store\<close>

text \<open>No loop body changes the classification of the features.\<close>

definition same_features :: "'a Data \<Rightarrow> 'a Data \<Rightarrow> bool" where
  "same_features d d' \<longleftrightarrow>
     features_0d d' = features_0d d \<and> features_1d d' = features_1d d \<and> features_2d d' = features_2d d"

text \<open>The entry of a feature is a Python list with one value per node.\<close>

definition holds_list :: "nat \<Rightarrow> string \<Rightarrow> 'a Data \<Rightarrow> bool" where
  "holds_list n f d \<longleftrightarrow> (\<exists>us. data_U d f = Some (PyList us) \<and> length us = n)"

text \<open>
  The entry of a feature that the \<^verbatim>\<open>else\<close> branch has written: the time basis of the first
  node and the values of the nodes, in node order.
\<close>

definition stored_as_returned :: "'a node_result list \<Rightarrow> string \<Rightarrow> 'a Data \<Rightarrow> bool" where
  "stored_as_returned solves f x \<longleftrightarrow>
     (\<exists>rs. length rs = length solves \<and> (\<forall>j<length solves. map_of (solves ! j) f = Some (rs ! j))
        \<and> data_t x f = Some (item0 (rs ! 0)) \<and> data_U x f = Some (PyList (map item1 rs)))"

section \<open>Parameter.set\_parameter\_file\<close>

subsection \<open>Regular expressions as Python's re matches them\<close>

text \<open>
  \<^verbatim>\<open>set_parameter_file\<close> is a regular expression and a call of \<^verbatim>\<open>pattern.sub\<close>, so its
  model is the expression as a term and a matcher with the semantics of Python's
  backtracking engine: the alternatives of \<^verbatim>\<open>|\<close> are tried from left to right, \<^verbatim>\<open>?\<close>,
  \<^verbatim>\<open>*\<close> and \<^verbatim>\<open>+\<close> are greedy, and the first way to match that is found is the match.
  The text is a string of bytes, and the classes are the ASCII ones: \<^verbatim>\<open>\d\<close> is
  \<^verbatim>\<open>[0-9]\<close>, \<^verbatim>\<open>\s\<close> is \<^verbatim>\<open>[ \t\n\r\f\v]\<close>, \<^verbatim>\<open>\w\<close> is \<^verbatim>\<open>[a-zA-Z0-9_]\<close>.
\<close>

definition is_digit :: "char \<Rightarrow> bool" where
  "is_digit c = (c \<in> set ''0123456789'')"

definition is_space :: "char \<Rightarrow> bool" where
  "is_space c = (c \<in> set [CHR '' '', CHR 0x09, CHR 0x0A, CHR 0x0B, CHR 0x0C, CHR 0x0D])"

definition is_word :: "char \<Rightarrow> bool" where
  "is_word c = (c \<in> set ''abcdefghijklmnopqrstuvwxyzABCDEFGHIJKLMNOPQRSTUVWXYZ0123456789_'')"

datatype regex =
    Empty
  | Chr char
  | OneOf string
  | Digit
  | Space
  | Seq regex regex
  | Alt regex regex
  | Opt regex
  | Star regex
  | Plus regex
  | StartOfString
  | EndOfLine
  | WordBoundary

text \<open>
  A position in the subject string is the character before it, \<open>None\<close> at the start of
  the string, and the rest of the string from it: all that \<^verbatim>\<open>\A\<close>, \<^verbatim>\<open>\b\<close> and \<^verbatim>\<open>$\<close>
  look at.  \<^verbatim>\<open>$\<close> (without the MULTILINE flag) matches at the end of the string and
  before a newline that ends the string.
\<close>

type_synonym position = "char option \<times> string"

definition word_before :: "position \<Rightarrow> bool" where
  "word_before st = (case fst st of None \<Rightarrow> False | Some c \<Rightarrow> is_word c)"

definition word_after :: "position \<Rightarrow> bool" where
  "word_after st = (case snd st of [] \<Rightarrow> False | c # cs \<Rightarrow> is_word c)"

definition one_char :: "(char \<Rightarrow> bool) \<Rightarrow> position \<Rightarrow> position list" where
  "one_char P st = (case snd st of [] \<Rightarrow> [] | c # cs \<Rightarrow> if P c then [(Some c, cs)] else [])"

text \<open>
  \<open>matches r st\<close> lists the positions at which a match of \<open>r\<close> that begins at \<open>st\<close> can
  end, in the order in which the backtracking engine finds them.  An iteration of a
  star that consumes nothing ends the star.
\<close>

function matches :: "regex \<Rightarrow> position \<Rightarrow> position list" where
  "matches Empty st = [st]"
| "matches (Chr c) st = one_char (\<lambda>x. x = c) st"
| "matches (OneOf cs) st = one_char (\<lambda>x. x \<in> set cs) st"
| "matches Digit st = one_char is_digit st"
| "matches Space st = one_char is_space st"
| "matches (Seq r1 r2) st = concat (map (matches r2) (matches r1 st))"
| "matches (Alt r1 r2) st = matches r1 st @ matches r2 st"
| "matches (Opt r) st = matches r st @ [st]"
| "matches (Star r) st =
     concat (map (\<lambda>st'. if length (snd st') < length (snd st) then matches (Star r) st' else [])
               (matches r st)) @ [st]"
| "matches (Plus r) st =
     concat (map (\<lambda>st'. if length (snd st') < length (snd st) then matches (Star r) st' else [st'])
               (matches r st))"
| "matches StartOfString st = (if fst st = None then [st] else [])"
| "matches EndOfLine st = (if snd st = [] \<or> snd st = [CHR 0x0A] then [st] else [])"
| "matches WordBoundary st = (if word_before st \<noteq> word_after st then [st] else [])"
  by pat_completeness auto
termination
  by (relation "inv_image (less_than <*lex*> less_than <*lex*> less_than)
        (\<lambda>(r, st). (size r, length (snd st), case r of Plus r' \<Rightarrow> 1 | _ \<Rightarrow> 0))")
     auto

text \<open>
  The pattern of line 113,
  \<^verbatim>\<open>(\A|\b)(NAME)(\s*=\s*)((([+-]?\d+[.]?\d*)|([+-]?\d*[.]?\d+))([eE][+-]?\d+)*)($|\b)\<close>,
  in two parts: groups 1 to 3, and groups 4 to 9.  The name is pasted into the pattern
  as it is; the model takes it as the literal sequence of its characters, which it is
  when it has no character that is special in a regular expression.
\<close>

fun literal :: "string \<Rightarrow> regex" where
  "literal [] = Empty"
| "literal (c # cs) = Seq (Chr c) (literal cs)"

definition groups_2_to_3 :: "string \<Rightarrow> regex" where
  "groups_2_to_3 nm = Seq (literal nm) (Seq (Star Space) (Seq (Chr (CHR ''='')) (Star Space)))"

definition groups_1_to_3 :: "string \<Rightarrow> regex" where
  "groups_1_to_3 nm = Seq (Alt StartOfString WordBoundary) (groups_2_to_3 nm)"

definition groups_4_to_8 :: regex where
  "groups_4_to_8 =
     Seq (Alt (Seq (Opt (OneOf ''+-'')) (Seq (Plus Digit) (Seq (Opt (OneOf ''.'')) (Star Digit))))
              (Seq (Opt (OneOf ''+-'')) (Seq (Star Digit) (Seq (Opt (OneOf ''.'')) (Plus Digit)))))
         (Star (Seq (OneOf ''eE'') (Seq (Opt (OneOf ''+-'')) (Plus Digit))))"

definition groups_4_to_9 :: regex where
  "groups_4_to_9 = Seq groups_4_to_8 (Alt EndOfLine WordBoundary)"

text \<open>
  The first match of the whole pattern at a position, as the engine finds it: the position
  where group 4 begins and the position where the match ends.
\<close>

definition first_match :: "string \<Rightarrow> position \<Rightarrow> (position \<times> position) option" where
  "first_match nm st =
     (case concat (map (\<lambda>s1. map (Pair s1) (matches groups_4_to_9 s1)) (matches (groups_1_to_3 nm) st)) of
        [] \<Rightarrow> None
      | m # ms \<Rightarrow> Some m)"

subsection \<open>The substitution\<close>

text \<open>
  \<^verbatim>\<open>pattern.sub(r"\g<1>\g<2>\g<3>" + str(value), line)\<close> (line 117) scans the line from
  left to right.  Where the pattern matches, the match is replaced by the text of groups 1
  to 3, which is the text from the start of the match to the start of group 4, followed by
  \<^verbatim>\<open>str(value)\<close>, and the scan goes on at the end of the match; elsewhere the character
  is copied.  The argument \<open>v\<close> is \<^verbatim>\<open>str(value)\<close>, the text of a number, which has no
  backslash.  A match of this pattern is never empty; for an empty one Python inserts the
  replacement and copies the next character.
\<close>

function sub_loop :: "string \<Rightarrow> string \<Rightarrow> position \<Rightarrow> string" where
  "sub_loop nm v st =
     (case first_match nm st of
        None \<Rightarrow> (case snd st of [] \<Rightarrow> [] | c # cs \<Rightarrow> c # sub_loop nm v (Some c, cs))
      | Some (s1, s2) \<Rightarrow>
          if length (snd s2) < length (snd st)
          then take (length (snd st) - length (snd s1)) (snd st) @ v @ sub_loop nm v s2
          else v @ (case snd st of [] \<Rightarrow> [] | c # cs \<Rightarrow> c # sub_loop nm v (Some c, cs)))"
  by pat_completeness auto
termination
  by (relation "measure (\<lambda>(nm, v, st). length (snd st))") auto




subsection \<open>Notions for the properties of the substitution\<close>

text \<open>The character before a position, after the text \<open>w\<close> has been consumed from it.\<close>

definition adv :: "char option \<Rightarrow> string \<Rightarrow> char option" where
  "adv p w = (if w = [] then p else Some (last w))"




fun chars :: "regex \<Rightarrow> char \<Rightarrow> bool" where
  "chars (Chr c) x = (x = c)"
| "chars (OneOf cs) x = (x \<in> set cs)"
| "chars Digit x = is_digit x"
| "chars Space x = is_space x"
| "chars (Seq r1 r2) x = (chars r1 x \<or> chars r2 x)"
| "chars (Alt r1 r2) x = (chars r1 x \<or> chars r2 x)"
| "chars (Opt r) x = chars r x"
| "chars (Star r) x = chars r x"
| "chars (Plus r) x = chars r x"
| "chars r x = False"

fun nullable :: "regex \<Rightarrow> bool" where
  "nullable (Chr c) = False"
| "nullable (OneOf cs) = False"
| "nullable Digit = False"
| "nullable Space = False"
| "nullable (Seq r1 r2) = (nullable r1 \<and> nullable r2)"
| "nullable (Alt r1 r2) = (nullable r1 \<or> nullable r2)"
| "nullable (Plus r) = nullable r"
| "nullable r = True"



text \<open>
  A line is clean for a name when each occurrence that the substitution finds in it is
  followed by the end of the line, or by a character that can continue neither a number
  nor a word: no letter, digit or underscore, and none of \<^verbatim>\<open>.\<close>, \<^verbatim>\<open>+\<close>, \<^verbatim>\<open>-\<close>.  The scan
  is the one of \<^const>\<open>sub_loop\<close>.
\<close>

definition ends_number :: "string \<Rightarrow> bool" where
  "ends_number r = (case r of [] \<Rightarrow> True | c # cs \<Rightarrow> \<not> is_word c \<and> c \<notin> set ''.+-'')"

function clean_loop :: "string \<Rightarrow> position \<Rightarrow> bool" where
  "clean_loop nm st =
     (case first_match nm st of
        None \<Rightarrow> (case snd st of [] \<Rightarrow> True | c # cs \<Rightarrow> clean_loop nm (Some c, cs))
      | Some (s1, s2) \<Rightarrow>
          if length (snd s2) < length (snd st)
          then ends_number (snd s2) \<and> clean_loop nm s2
          else False)"
  by pat_completeness auto
termination
  by (relation "measure (\<lambda>(nm, st). length (snd st))") auto



text \<open>
  What a match takes: \<open>took r st st' w\<close> says that \<open>st'\<close> follows \<open>st\<close> by the text \<open>w\<close>,
  that \<open>r\<close> has a place for each character of \<open>w\<close>, and that \<open>w\<close> is not empty unless \<open>r\<close>
  is nullable.
\<close>

definition took :: "regex \<Rightarrow> position \<Rightarrow> position \<Rightarrow> string \<Rightarrow> bool" where
  "took rx st st' w = (snd st = w @ snd st' \<and> fst st' = adv (fst st) w
     \<and> (\<forall>c\<in>set w. chars rx c) \<and> (\<not> nullable rx \<longrightarrow> w \<noteq> []))"







section \<open>Properties of parameters.py\<close>


lemma uncertain_loop_eq:
  "uncertain_loop ps a items =
     items @ map (\<lambda>p. getattr p a) (filter (\<lambda>p. distribution p \<noteq> None) ps)"
  by (induction ps arbitrary: items) simp_all

text \<open>
  Claim C5.  \<^verbatim>\<open>get_from_uncertain("name")\<close> returns the names of exactly the parameters
  whose distribution is not None, in the order in which they are stored; for the parameter
  list \<^verbatim>\<open>[["a", 1, Uniform(0, 1)], ["b", 2, None]]\<close> it returns \<^verbatim>\<open>["a"]\<close>.
\<close>

theorem get_from_uncertain_name:
  "get_from_uncertain ps Name =
     map (\<lambda>p. AName (name p)) (filter (\<lambda>p. distribution p \<noteq> None) (map snd (parameters ps)))
   \<and> Parameters_init [Raw ''a'' (1::int) (DDist (Uniform 0 1)), Raw ''b'' 2 DNone] None =
       Inr \<lparr>parameters = [(''a'', \<lparr>name = ''a'', val = 1, distribution = Some (Uniform 0 1)\<rparr>),
                           (''b'', \<lparr>name = ''b'', val = 2, distribution = None\<rparr>)],
            joint_distribution = None\<rparr>
   \<and> get_from_uncertain
        \<lparr>parameters = [(''a'', \<lparr>name = ''a'', val = 1::int, distribution = Some (Uniform 0 1)\<rparr>),
                       (''b'', \<lparr>name = ''b'', val = 2, distribution = None\<rparr>)],
         joint_distribution = None\<rparr> Name = [AName ''a'']"
  by (simp add: get_from_uncertain_def uncertain_loop_eq Parameters_init_def Parameter_init_def)

lemma init_loop_raw_obj:
  "list_all2 (\<lambda>(n, v, da) p. Parameter_init n v da = Inr p) ts objs \<Longrightarrow>
   init_loop (map (\<lambda>(n, v, da). Raw n v da) ts) acc = init_loop (map Obj objs) acc"
proof (induction ts objs arbitrary: acc rule: list_all2_induct)
  case Nil
  show ?case by simp
next
  case (Cons t ts p objs)
  obtain n v da where t: "t = (n, v, da)" by (cases t)
  from Cons.hyps(1) t have p: "Parameter_init n v da = Inr p" by simp
  then have "name p = n"
    by (auto simp: Parameter_init_def split: sum.splits)
  with p t Cons.IH show ?case by simp
qed

lemma init_loop_obj: "\<exists>ps. init_loop (map Obj objs) acc = Inr ps"
  by (induction objs arbitrary: acc) simp_all

text \<open>
  Claim C6.  For every list of \<^verbatim>\<open>(name, value, distribution)\<close> triples from which
  Parameter objects can be built, the collection built from the raw triples and the
  collection built from those Parameter objects both exist and give the same
  \<^verbatim>\<open>get_from_uncertain("name")\<close>, element for element.
\<close>

theorem raw_and_object_lists_agree:
  assumes "list_all2 (\<lambda>(n, v, da) p. Parameter_init n v da = Inr p) ts objs"
  shows "\<exists>ps ps'. Parameters_init (map (\<lambda>(n, v, da). Raw n v da) ts) jd = Inr ps
           \<and> Parameters_init (map Obj objs) jd' = Inr ps'
           \<and> get_from_uncertain ps Name = get_from_uncertain ps' Name"
proof -
  obtain qs where qs: "init_loop (map Obj objs) [] = Inr qs"
    using init_loop_obj by blast
  with init_loop_raw_obj [OF assms, of "[]"]
  have "init_loop (map (\<lambda>(n, v, da). Raw n v da) ts) [] = Inr qs" by simp
  with qs show ?thesis
    by (simp add: Parameters_init_def get_from_uncertain_def)
qed

theorem raw_and_object_lists_agree_witness:
  "list_all2 (\<lambda>(n, v, da) p. Parameter_init n v da = Inr p)
     [(''a'', 1::int, DDist (Uniform 0 1)), (''b'', 2, DNone)]
     [\<lparr>name = ''a'', val = 1, distribution = Some (Uniform 0 1)\<rparr>,
      \<lparr>name = ''b'', val = 2, distribution = None\<rparr>]
   \<and> (\<exists>ps ps'. Parameters_init [Raw ''a'' (1::int) (DDist (Uniform 0 1)), Raw ''b'' 2 DNone] None = Inr ps
           \<and> Parameters_init
                [Obj \<lparr>name = ''a'', val = 1, distribution = Some (Uniform 0 1)\<rparr>,
                 Obj \<lparr>name = ''b'', val = 2, distribution = None\<rparr>] None = Inr ps'
           \<and> get_from_uncertain ps Name = get_from_uncertain ps' Name
           \<and> get_from_uncertain ps Name = [AName ''a''])"
proof -
  have h: "list_all2 (\<lambda>(n, v, da) p. Parameter_init n v da = Inr p)
     [(''a'', 1::int, DDist (Uniform 0 1)), (''b'', 2, DNone)]
     [\<lparr>name = ''a'', val = 1, distribution = Some (Uniform 0 1)\<rparr>,
      \<lparr>name = ''b'', val = 2, distribution = None\<rparr>]"
    by (simp add: Parameter_init_def)
  from raw_and_object_lists_agree [OF h, of None None] h show ?thesis
    by (auto simp: Parameters_init_def Parameter_init_def get_from_uncertain_def)
qed

text \<open>
  Claim C9 as stated fails: for the collection built from \<^verbatim>\<open>[["a", 1, None]]\<close> the
  stored name \<^verbatim>\<open>"a"\<close> is a member, and the stored Parameter object is not, although
  iterating yields that object.
\<close>

theorem membership_counterexample:
  "Parameters_init [Raw ''a'' (1::int) (DNone :: (int, dist) dist_arg)] None =
     Inr \<lparr>parameters = [(''a'', \<lparr>name = ''a'', val = 1, distribution = None\<rparr>)],
          joint_distribution = None\<rparr>
   \<and> getitem \<lparr>parameters = [(''a'', \<lparr>name = ''a'', val = 1::int, distribution = None\<rparr>)],
          joint_distribution = None :: dist option\<rparr> ''a''
       = Inr \<lparr>name = ''a'', val = 1, distribution = None\<rparr>
   \<and> contains \<lparr>parameters = [(''a'', \<lparr>name = ''a'', val = 1::int, distribution = None\<rparr>)],
          joint_distribution = None :: dist option\<rparr> (Str ''a'') = Inr True
   \<and> iter \<lparr>parameters = [(''a'', \<lparr>name = ''a'', val = 1::int, distribution = None\<rparr>)],
          joint_distribution = None :: dist option\<rparr>
       = [\<lparr>name = ''a'', val = 1, distribution = None\<rparr>]
   \<and> contains \<lparr>parameters = [(''a'', \<lparr>name = ''a'', val = 1::int, distribution = None\<rparr>)],
          joint_distribution = None :: dist option\<rparr>
         (Par \<lparr>name = ''a'', val = 1, distribution = None\<rparr>) = Inr False"
  by (simp add: Parameters_init_def Parameter_init_def contains_def getitem_def iter_def)

text \<open>
  Claim C9, amended.  Iterating over a collection yields the stored Parameter objects, not
  the names; the membership test is derived from \<^verbatim>\<open>__getitem__\<close>, not from iteration, so
  \<^verbatim>\<open>name in parameters\<close> is True exactly for the stored names (exactly when
  \<^verbatim>\<open>parameters[name]\<close> succeeds) and False for a Parameter object.
\<close>

theorem iteration_and_membership:
  "iter ps = map snd (parameters ps)
   \<and> contains ps (Str n) = Inr (n \<in> fst ` set (parameters ps))
   \<and> (\<exists>p. getitem ps n = Inr p) = (n \<in> fst ` set (parameters ps))
   \<and> contains ps (Par p) = Inr False"
proof (cases "map_of (parameters ps) n")
  case None
  then have "n \<notin> fst ` set (parameters ps)" by (simp add: map_of_eq_None_iff)
  with None show ?thesis by (simp add: iter_def contains_def getitem_def)
next
  case (Some q)
  then have "n \<in> fst ` set (parameters ps)" by (metis map_of_eq_None_iff option.distinct(1))
  with Some show ?thesis by (simp add: iter_def contains_def getitem_def)
qed

section \<open>Properties of runmodel.py\<close>

lemma run_storeResults:
  "snd (evaluateNodes f (self\<lparr>data := resetValues (data self)\<rparr>) nodes) = Inr solves \<Longrightarrow>
   snd (run f self nodes) = storeResults (adaptive_model self) solves (resetValues (data self))"
  by (cases "evaluateNodes f (self\<lparr>data := resetValues (data self)\<rparr>) nodes")
     (simp add: run_def Let_def)

lemma isAdaptiveError_loop_cleared:
  "data_U d feature = None \<Longrightarrow> isAdaptiveError_loop d (feature # fs) = Some KeyError"
  by simp

lemma filter_nonempty: "x \<in> set xs \<Longrightarrow> P x \<Longrightarrow> filter P xs \<noteq> []"
  by (induction xs) auto

text \<open>
  Claim C2.  The claim asks for the shape-mismatch error when the shapes of a 1-D or 2-D
  feature differ between the nodes of a run that is not adaptive.  The code does otherwise:
  \<^verbatim>\<open>storeResults\<close> calls \<^verbatim>\<open>isAdaptiveError\<close> before it has stored anything, and
  \<^verbatim>\<open>isAdaptiveError\<close> compares the shapes found in the store, which \<^verbatim>\<open>run\<close> has just
  cleared.  So whenever the first node has a feature of one or more dimensions, whatever
  the shapes at the other nodes, the run ends with KeyError and the shapes are never
  compared.
\<close>

theorem shape_check_reads_cleared_store:
  assumes "\<not> adaptive"
    and "(feature, r) \<in> set s0"
    and "1 \<le> ndim (item1 r)"
  shows "raised (storeResults adaptive (s0 # rest) (resetValues d)) = Some KeyError"
proof -
  let ?d1 = "setFeatures s0 (resetValues d)"
  have U: "data_U ?d1 g = None" for g
    by (simp add: setFeatures_def resetValues_def)
  have "features_1d ?d1 @ features_2d ?d1 \<noteq> []"
  proof (cases "ndim (item1 r) = 1")
    case True
    with assms(2) have "filter (\<lambda>(f, r). ndim (item1 r) = 1) s0 \<noteq> []"
      by (intro filter_nonempty [of "(feature, r)"]) auto
    then show ?thesis by (simp add: setFeatures_def)
  next
    case False
    with assms(3) have "2 \<le> ndim (item1 r)" by simp
    with assms(2) have "filter (\<lambda>(f, r). 2 \<le> ndim (item1 r)) s0 \<noteq> []"
      by (intro filter_nonempty [of "(feature, r)"]) auto
    then show ?thesis by (simp add: setFeatures_def)
  qed
  then obtain g gs where "features_1d ?d1 @ features_2d ?d1 = g # gs"
    by (cases "features_1d ?d1 @ features_2d ?d1") auto
  then have "isAdaptiveError adaptive ?d1 = Some KeyError"
    using assms(1) U by (simp add: isAdaptiveError_def)
  then show ?thesis
    by (simp add: storeResults_def raised_def Let_def)
qed

lemma run_example: "snd (evaluateNodes worker0 (rm0\<lparr>data := resetValues (data rm0)\<rparr>) [0, 1]) = Inr [node0, node1]"
  by (simp add: evaluateNodes_def evaluateNodeFunctionList_def Let_def Pool_def rm0_def)

text \<open>
  Claim C2 at a run of two nodes whose one feature has three points at the first node and
  two at the second: the run ends with KeyError.
\<close>

theorem shape_check_reads_cleared_store_witness:
  "\<not> adaptive_model rm0
   \<and> (''directComparison'', Tuple2 (Some (NdArray [3] [0, 1, 2])) (NdArray [3] [5, 6, 7])) \<in> set node0
   \<and> 1 \<le> ndim (item1 (Tuple2 (Some (NdArray [3] [0, 1, 2 :: int])) (NdArray [3] [5, 6, 7])))
   \<and> shape (item1 (Tuple2 (Some (NdArray [3] [0, 1, 2 :: int])) (NdArray [3] [5, 6, 7])))
       \<noteq> shape (item1 (Tuple2 (Some (NdArray [2] [0, 1 :: int])) (NdArray [2] [5, 6])))
   \<and> raised (snd (run worker0 rm0 [0, 1])) = Some KeyError"
proof -
  have a: "\<not> adaptive_model rm0" by (simp add: rm0_def)
  have b: "(''directComparison'', Tuple2 (Some (NdArray [3] [0, 1, 2])) (NdArray [3] [5, 6, 7])) \<in> set node0"
    by (simp add: node0_def)
  have c: "1 \<le> ndim (item1 (Tuple2 (Some (NdArray [3] [0, 1, 2 :: int])) (NdArray [3] [5, 6, 7])))"
    by (simp add: ndim_def)
  have d: "shape (item1 (Tuple2 (Some (NdArray [3] [0, 1, 2 :: int])) (NdArray [3] [5, 6, 7])))
       \<noteq> shape (item1 (Tuple2 (Some (NdArray [2] [0, 1 :: int])) (NdArray [2] [5, 6])))"
    by simp
  have "snd (run worker0 rm0 [0, 1]) = storeResults (adaptive_model rm0) [node0, node1] (resetValues (data rm0))"
    by (rule run_storeResults [OF run_example])
  with shape_check_reads_cleared_store [OF a b c, of "[node1]" "data rm0"]
  have "raised (snd (run worker0 rm0 [0, 1])) = Some KeyError" by simp
  with a b c d show ?thesis by blast
qed


subsection \<open>The dispatch of a batch\<close>


lemma upt_from_Suc: "[n..<n + Suc k] = n # [Suc n..<Suc n + k]"
  by (simp add: upt_conv_Cons)

lemma imap_loop_None:
  "imap_loop outcomes (solves, tr) = (None, solves', tr') \<Longrightarrow>
   \<exists>rs. outcomes = map Inr rs \<and> solves' = solves @ rs
      \<and> tr' = tr @ map Solves_append [length solves..<length solves + length rs]"
proof (induction outcomes "(solves, tr)" arbitrary: solves tr rule: imap_loop.induct)
  case (1 solves tr)
  then show ?case by simp
next
  case (2 e outcomes solves tr)
  then show ?case by simp
next
  case (3 result outcomes solves tr)
  from "3.prems" have "imap_loop outcomes (solves @ [result], tr @ [Solves_append (length solves)])
      = (None, solves', tr')" by simp
  from "3.hyps" [OF this] obtain rs where rs: "outcomes = map Inr rs"
    "solves' = (solves @ [result]) @ rs"
    "tr' = (tr @ [Solves_append (length solves)])
        @ map Solves_append [length (solves @ [result])..<length (solves @ [result]) + length rs]"
    by blast
  have "Inr result # outcomes = map Inr (result # rs)" using rs(1) by simp
  moreover have "solves' = solves @ (result # rs)" using rs(2) by simp
  moreover have "tr' = tr @ map Solves_append [length solves..<length solves + length (result # rs)]"
    using rs(3) upt_from_Suc [of "length solves" "length rs"] by simp
  ultimately have "Inr result # outcomes = map Inr (result # rs) \<and> solves' = solves @ (result # rs)
      \<and> tr' = tr @ map Solves_append [length solves..<length solves + length (result # rs)]"
    by (intro conjI)
  then show ?case by (rule exI [of _ "result # rs"])
qed

lemma evaluateNodeFunctionList_loop_length:
  "length (evaluateNodeFunctionList_loop self nodes data_list) = length data_list + length nodes"
  by (induction nodes arbitrary: data_list) simp_all

lemma evaluateNodeFunctionList_length:
  "length (evaluateNodeFunctionList self nodes) = length nodes"
  by (simp add: evaluateNodeFunctionList_def evaluateNodeFunctionList_loop_length)

lemma imap_loop_all_return:
  "imap_loop (map Inr rs) (solves, tr) =
     (None, solves @ rs, tr @ map Solves_append [length solves..<length solves + length rs])"
proof (induction rs arbitrary: solves tr)
  case Nil
  show ?case by simp
next
  case (Cons r rs)
  show ?case using upt_from_Suc [of "length solves" "length rs"] by (simp add: Cons)
qed

lemma all_return:
  "\<forall>t\<in>set ts. \<exists>r. f t = Inr r \<Longrightarrow> \<exists>rs. map f ts = map Inr rs"
proof (induction ts)
  case Nil
  show ?case by simp
next
  case (Cons t ts)
  then obtain r rs where "f t = Inr r" "map f ts = map Inr rs" by auto
  then have "map f (t # ts) = map Inr (r # rs)" by simp
  then show ?case by blast
qed

text \<open>
  Claim C8, amended.  With graphics suppression enabled, when the pool can be created, that
  is with at least one process, and every node evaluation of the batch returns, the call
  returns the results of the nodes in node order, and the virtual display is started once,
  before the pool is created and the tasks are handed to it, and stopped once, after the
  last result has been collected and the pool closed: nothing else happens before the
  start or after the stop.
\<close>

theorem display_brackets_complete_batch:
  assumes "supress_model_graphics self"
    and "1 \<le> CPUs self"
    and "\<forall>task\<in>set (evaluateNodeFunctionList self nodes). \<exists>r. f task = Inr r"
  shows "\<exists>solves.
           evaluateNodes f self nodes =
             ([Xvfb_start, Pool_create (CPUs self), Pool_imap (evaluateNodeFunctionList self nodes)]
                @ map Solves_append [0..<length nodes]
                @ [Pool_close, Xvfb_stop],
              Inr solves)
         \<and> map f (evaluateNodeFunctionList self nodes) = map Inr solves
         \<and> length solves = length nodes"
proof -
  let ?tasks = "evaluateNodeFunctionList self nodes"
  let ?tr2 = "[Xvfb_start, Pool_create (CPUs self), Pool_imap ?tasks]"
  from all_return [OF assms(3)] obtain rs where rs: "map f ?tasks = map Inr rs" by blast
  then have "length rs = length ?tasks" by (metis length_map)
  then have len: "length rs = length nodes" by (simp add: evaluateNodeFunctionList_length)
  have l: "imap_loop (map f ?tasks) ([], ?tr2) = (None, rs, ?tr2 @ map Solves_append [0..<length rs])"
    unfolding rs using imap_loop_all_return [of rs "[]" ?tr2] by simp
  have p: "Pool (CPUs self) = Inr (Pool_create (CPUs self))"
    using assms(2) by (simp add: Pool_def)
  have "evaluateNodes f self nodes =
      (?tr2 @ map Solves_append [0..<length nodes] @ [Pool_close, Xvfb_stop], Inr rs)"
    using assms(1) by (simp add: evaluateNodes_def Let_def p l len del: imap_loop.simps)
  with rs len show ?thesis by blast
qed

text \<open>
  The trace of a call that returns: nothing but the bracketed batch.
\<close>

lemma evaluateNodes_returns:
  assumes "supress_model_graphics self"
    and "snd (evaluateNodes f self nodes) = Inr solves"
  shows "1 \<le> CPUs self
     \<and> fst (evaluateNodes f self nodes) =
           [Xvfb_start, Pool_create (CPUs self), Pool_imap (evaluateNodeFunctionList self nodes)]
           @ map Solves_append [0..<length nodes]
           @ [Pool_close, Xvfb_stop]
     \<and> length solves = length nodes"
proof -
  let ?tasks = "evaluateNodeFunctionList self nodes"
  let ?tr2 = "[Xvfb_start, Pool_create (CPUs self), Pool_imap ?tasks]"
  from assms(2) have c: "1 \<le> CPUs self"
    by (cases "CPUs self < 1") (auto simp: evaluateNodes_def Let_def Pool_def)
  then have p: "Pool (CPUs self) = Inr (Pool_create (CPUs self))" by (simp add: Pool_def)
  obtain err solves' tr3 where l: "imap_loop (map f ?tasks) ([], ?tr2) = (err, solves', tr3)"
    by (cases "imap_loop (map f ?tasks) ([], ?tr2)") auto
  have ev0: "evaluateNodes f self nodes =
      (case err of Some e \<Rightarrow> (tr3, Inl e) | None \<Rightarrow> (tr3 @ [Pool_close, Xvfb_stop], Inr solves'))"
    by (simp add: evaluateNodes_def Let_def p l assms(1) del: imap_loop.simps split: option.splits)
  with assms(2) have err: "err = None" by (cases err) simp_all
  with ev0 assms(2) have s: "solves' = solves" by simp
  from imap_loop_None [OF l [unfolded err]] obtain rs where
    rs: "map f ?tasks = map Inr rs" "solves' = rs" "tr3 = ?tr2 @ map Solves_append [0..<length rs]"
    by auto
  from rs(1) have "length rs = length ?tasks" by (metis length_map)
  then have len: "length rs = length nodes" by (simp add: evaluateNodeFunctionList_length)
  have ev: "evaluateNodes f self nodes = (tr3 @ [Pool_close, Xvfb_stop], Inr solves')"
    using ev0 err by simp
  show ?thesis using ev rs(2,3) len s c by simp
qed

text \<open>
  A pool of no process is refused: the display has been started and is not stopped,
  although no node evaluation has failed, none having begun.
\<close>

lemma pool_refused_display_not_stopped:
  assumes "supress_model_graphics self" "CPUs self = 0"
  shows "evaluateNodes f self nodes = ([Xvfb_start], Inl ValueError_processes)"
  using assms by (simp add: evaluateNodes_def Pool_def)


subsection \<open>The loops of storeResults\<close>



lemma for_features_invariant:
  "for_features body fs (b, d) = Inr (b', d') \<Longrightarrow> I d \<Longrightarrow>
   \<forall>g\<in>set fs. \<forall>d d'. body g d = Inr d' \<longrightarrow> I d \<longrightarrow> I d' \<Longrightarrow> I d'"
proof (induction fs arbitrary: b d)
  case Nil
  then show ?case by simp
next
  case (Cons g fs)
  from Cons.prems(1) obtain d1 where b: "body g d = Inr d1"
    and r: "for_features body fs (Some g, d1) = Inr (b', d')"
    by (auto split: sum.splits)
  have "I d1" using Cons.prems(2,3) b by auto
  moreover have "\<forall>g\<in>set fs. \<forall>d d'. body g d = Inr d' \<longrightarrow> I d \<longrightarrow> I d'"
    using Cons.prems(3) by simp
  ultimately show ?case using Cons.IH [OF r] by blast
qed

lemma for_features_establish:
  "for_features body fs (b, d) = Inr (b', d') \<Longrightarrow> f \<in> set fs \<Longrightarrow>
   \<forall>d d'. body f d = Inr d' \<longrightarrow> I d' \<Longrightarrow>
   \<forall>g\<in>set fs. \<forall>d d'. body g d = Inr d' \<longrightarrow> I d \<longrightarrow> I d' \<Longrightarrow> I d'"
proof (induction fs arbitrary: b d)
  case Nil
  then show ?case by simp
next
  case (Cons g fs)
  from Cons.prems(1) obtain d1 where b: "body g d = Inr d1"
    and r: "for_features body fs (Some g, d1) = Inr (b', d')"
    by (auto split: sum.splits)
  have step: "\<forall>g\<in>set fs. \<forall>d d'. body g d = Inr d' \<longrightarrow> I d \<longrightarrow> I d'"
    using Cons.prems(4) by simp
  show ?case
  proof (cases "f \<in> set fs")
    case True
    from Cons.IH [OF r True Cons.prems(3) step] show ?thesis .
  next
    case False
    with Cons.prems(2) have "g = f" by simp
    with b Cons.prems(3) have "I d1" by simp
    from for_features_invariant [OF r this step] show ?thesis .
  qed
qed

lemma for_features_bound:
  "for_features body fs (b, d) = Inr (b', d') \<Longrightarrow> b' = (if fs = [] then b else Some (last fs))"
  by (induction fs arbitrary: b d) (auto split: sum.splits)

text \<open>What one pass of a loop body leaves in the store.\<close>

lemma append_loop_None:
  "append_loop feature solves us = (None, us') \<Longrightarrow> length us' = length us + length solves"
  by (induction solves arbitrary: us) (auto split: option.splits)

lemma store_from_first_Inr:
  assumes "store_from_first solves feature d = Inr d'"
  shows "\<exists>r us. d' = d\<lparr>data_t := (data_t d)(feature \<mapsto> r), data_U := (data_U d)(feature \<mapsto> PyList us)\<rparr>
           \<and> length us = length solves"
proof -
  from assms obtain s0 rest where s: "solves = s0 # rest"
    by (cases solves) (auto simp: store_from_first_def)
  from assms s obtain r where r: "map_of s0 feature = Some r"
    by (cases "map_of s0 feature") (auto simp: store_from_first_def)
  obtain err us where a: "append_loop feature solves [] = (err, us)"
    by (cases "append_loop feature solves []") auto
  with assms s r have "err = None"
    by (cases err) (auto simp: store_from_first_def Let_def)
  with a append_loop_None have "length us = length solves" by fastforce
  moreover from assms s r a \<open>err = None\<close>
  have "d' = d\<lparr>data_t := (data_t d)(feature \<mapsto> item0 r), data_U := (data_U d)(feature \<mapsto> PyList us)\<rparr>"
    by (auto simp: store_from_first_def Let_def)
  ultimately show ?thesis by blast
qed

lemma body_0d_Inr:
  assumes "body_0d solves feature d = Inr d'"
  shows "\<exists>us. d' = d\<lparr>data_t := (data_t d)(feature \<mapsto> None), data_U := (data_U d)(feature \<mapsto> PyList us)\<rparr>
           \<and> length us = length solves"
proof -
  obtain err us where a: "append_loop feature solves [] = (err, us)"
    by (cases "append_loop feature solves []") auto
  with assms have "err = None"
    by (cases err) (auto simp: body_0d_def Let_def)
  with a append_loop_None have "length us = length solves" by fastforce
  moreover from assms a \<open>err = None\<close>
  have "d' = d\<lparr>data_t := (data_t d)(feature \<mapsto> None), data_U := (data_U d)(feature \<mapsto> PyList us)\<rparr>"
    by (auto simp: body_0d_def Let_def)
  ultimately show ?thesis by blast
qed

lemma body_2d_Inr:
  assumes "body_2d adaptive solves feature d = Inr d'"
  shows "\<not> (adaptive \<and> feature = ''directComparison'')
     \<and> (\<exists>r us. d' = d\<lparr>data_t := (data_t d)(feature \<mapsto> r), data_U := (data_U d)(feature \<mapsto> PyList us)\<rparr>
           \<and> length us = length solves)"
  using assms store_from_first_Inr [of solves feature d d']
  by (auto simp: body_2d_def split: if_splits)

lemma body_1d_Inr:
  assumes "body_1d adaptive solves feature d = Inr d'"
  shows "if adaptive \<and> feature = ''directComparison''
     then (\<exists>ts interpolation t us. gather_loop feature solves ([], []) = Inr (ts, interpolation)
             \<and> performInterpolation ts interpolation = Inr (t, us)
             \<and> d' = d\<lparr>data_t := (data_t d)(feature \<mapsto> t), data_U := (data_U d)(feature \<mapsto> us)\<rparr>)
     else (\<exists>r us. d' = d\<lparr>data_t := (data_t d)(feature \<mapsto> r), data_U := (data_U d)(feature \<mapsto> PyList us)\<rparr>
           \<and> length us = length solves)"
proof (cases "adaptive \<and> feature = ''directComparison''")
  case True
  with assms show ?thesis
    by (auto simp: body_1d_def split: sum.splits prod.splits)
next
  case False
  with assms have "store_from_first solves feature d = Inr d'"
    by (auto simp: body_1d_def)
  from store_from_first_Inr [OF this] False show ?thesis by auto
qed

lemma body_2d_features: "body_2d adaptive solves g d = Inr d' \<Longrightarrow> same_features d0 d \<Longrightarrow> same_features d0 d'"
  by (drule body_2d_Inr) (auto simp: same_features_def)

lemma body_1d_features: "body_1d adaptive solves g d = Inr d' \<Longrightarrow> same_features d0 d \<Longrightarrow> same_features d0 d'"
  by (drule body_1d_Inr) (auto simp: same_features_def split: if_splits)

lemma body_0d_features: "body_0d solves g d = Inr d' \<Longrightarrow> same_features d0 d \<Longrightarrow> same_features d0 d'"
  by (drule body_0d_Inr) (auto simp: same_features_def)

lemma convert_last_Inr:
  "convert_last (b, d) = Inr d' \<Longrightarrow>
   \<exists>feature u. b = Some feature \<and> data_U d feature = Some u
      \<and> d' = d\<lparr>data_U := (data_U d)(feature \<mapsto> np_array u)\<rparr>"
  by (auto simp: convert_last_def split: option.splits)

text \<open>The stages of a call of storeResults that returns.\<close>

lemma storeResults_Inr:
  assumes "storeResults adaptive solves d = Inr d'"
  obtains s0 rest b2 d2 b1 d1 b0 d0 where
    "solves = s0 # rest"
    "isAdaptiveError adaptive (setFeatures s0 d) = None"
    "for_features (body_2d adaptive solves) (features_2d (setFeatures s0 d)) (None, setFeatures s0 d) = Inr (b2, d2)"
    "for_features (body_1d adaptive solves) (features_1d d2) (b2, d2) = Inr (b1, d1)"
    "for_features (body_0d solves) (features_0d d1) (b1, d1) = Inr (b0, d0)"
    "convert_last (b0, d0) = Inr d'"
proof -
  from assms obtain s0 rest where s: "solves = s0 # rest"
    by (cases solves) (auto simp: storeResults_def)
  let ?d1 = "setFeatures s0 d"
  from assms s have a: "isAdaptiveError adaptive ?d1 = None"
    by (cases "isAdaptiveError adaptive ?d1") (auto simp: storeResults_def Let_def)
  from assms s a obtain b2 d2 where
    l2: "for_features (body_2d adaptive solves) (features_2d ?d1) (None, ?d1) = Inr (b2, d2)"
    by (cases "for_features (body_2d adaptive solves) (features_2d ?d1) (None, ?d1)")
       (auto simp: storeResults_def Let_def)
  from assms s a l2 obtain b1 d1 where
    l1: "for_features (body_1d adaptive solves) (features_1d d2) (b2, d2) = Inr (b1, d1)"
    by (cases "for_features (body_1d adaptive solves) (features_1d d2) (b2, d2)")
       (auto simp: storeResults_def Let_def)
  from assms s a l2 l1 obtain b0 d0 where
    l0: "for_features (body_0d solves) (features_0d d1) (b1, d1) = Inr (b0, d0)"
    by (cases "for_features (body_0d solves) (features_0d d1) (b1, d1)")
       (auto simp: storeResults_def Let_def)
  from assms s a l2 l1 l0 have "convert_last (b0, d0) = Inr d'"
    by (auto simp: storeResults_def Let_def)
  with s a l2 l1 l0 show ?thesis by (rule that)
qed



lemma setFeatures_same: "same_features (setFeatures s0 d) (setFeatures s0 d)"
  by (simp add: same_features_def)

lemma loop_2d_features:
  "for_features (body_2d adaptive solves) fs (b, d) = Inr (b', d') \<Longrightarrow> same_features d d'"
proof (erule for_features_invariant [where I = "same_features d"])
  show "same_features d d" by (simp add: same_features_def)
  show "\<forall>g\<in>set fs. \<forall>da d'. body_2d adaptive solves g da = Inr d' \<longrightarrow> same_features d da \<longrightarrow> same_features d d'"
    using body_2d_features by blast
qed

lemma loop_1d_features:
  "for_features (body_1d adaptive solves) fs (b, d) = Inr (b', d') \<Longrightarrow> same_features d d'"
proof (erule for_features_invariant [where I = "same_features d"])
  show "same_features d d" by (simp add: same_features_def)
  show "\<forall>g\<in>set fs. \<forall>da d'. body_1d adaptive solves g da = Inr d' \<longrightarrow> same_features d da \<longrightarrow> same_features d d'"
    using body_1d_features by blast
qed

lemma loop_0d_features:
  "for_features (body_0d solves) fs (b, d) = Inr (b', d') \<Longrightarrow> same_features d d'"
proof (erule for_features_invariant [where I = "same_features d"])
  show "same_features d d" by (simp add: same_features_def)
  show "\<forall>g\<in>set fs. \<forall>da d'. body_0d solves g da = Inr d' \<longrightarrow> same_features d da \<longrightarrow> same_features d d'"
    using body_0d_features by blast
qed

lemma body_2d_list_same:
  "body_2d adaptive solves f d = Inr d' \<Longrightarrow> holds_list (length solves) f d'"
  by (drule body_2d_Inr) (auto simp: holds_list_def)

lemma body_2d_list_keep:
  "body_2d adaptive solves g d = Inr d' \<Longrightarrow> holds_list (length solves) f d \<Longrightarrow> holds_list (length solves) f d'"
  by (drule body_2d_Inr) (auto simp: holds_list_def)

lemma body_0d_list_same:
  "body_0d solves f d = Inr d' \<Longrightarrow> holds_list (length solves) f d'"
  by (drule body_0d_Inr) (auto simp: holds_list_def)

lemma body_0d_list_keep:
  "body_0d solves g d = Inr d' \<Longrightarrow> holds_list (length solves) f d \<Longrightarrow> holds_list (length solves) f d'"
  by (drule body_0d_Inr) (auto simp: holds_list_def)

lemma body_1d_list_same:
  "body_1d adaptive solves f d = Inr d' \<Longrightarrow> \<not> (adaptive \<and> f = ''directComparison'') \<Longrightarrow>
   holds_list (length solves) f d'"
  by (drule body_1d_Inr) (auto simp: holds_list_def)

lemma body_1d_list_keep:
  "body_1d adaptive solves g d = Inr d' \<Longrightarrow> \<not> (adaptive \<and> f = ''directComparison'' \<and> g = f) \<Longrightarrow>
   holds_list (length solves) f d \<Longrightarrow> holds_list (length solves) f d'"
  by (drule body_1d_Inr) (auto simp: holds_list_def split: if_splits)

lemma keep_2d:
  "\<forall>g\<in>set fs. \<forall>d d'. body_2d adaptive solves g d = Inr d' \<longrightarrow>
     holds_list (length solves) f d \<longrightarrow> holds_list (length solves) f d'"
  by (intro ballI allI impI) (rule body_2d_list_keep)

lemma keep_0d:
  "\<forall>g\<in>set fs. \<forall>d d'. body_0d solves g d = Inr d' \<longrightarrow>
     holds_list (length solves) f d \<longrightarrow> holds_list (length solves) f d'"
  by (intro ballI allI impI) (rule body_0d_list_keep)

lemma keep_1d:
  "\<not> (adaptive \<and> f = ''directComparison'' \<and> f \<in> set fs) \<Longrightarrow>
   \<forall>g\<in>set fs. \<forall>d d'. body_1d adaptive solves g d = Inr d' \<longrightarrow>
     holds_list (length solves) f d \<longrightarrow> holds_list (length solves) f d'"
  by (intro ballI allI impI) (rule body_1d_list_keep, assumption, blast, assumption)

lemma same_0d:
  "\<forall>d d'. body_0d solves f d = Inr d' \<longrightarrow> holds_list (length solves) f d'"
  by (intro allI impI) (rule body_0d_list_same)

lemma same_2d:
  "\<forall>d d'. body_2d adaptive solves f d = Inr d' \<longrightarrow> holds_list (length solves) f d'"
  by (intro allI impI) (rule body_2d_list_same)

lemma same_1d:
  "\<not> (adaptive \<and> f = ''directComparison'') \<Longrightarrow>
   \<forall>d d'. body_1d adaptive solves f d = Inr d' \<longrightarrow> holds_list (length solves) f d'"
  by (intro allI impI) (rule body_1d_list_same)

text \<open>
  Claim C10.  When storeResults returns and there is a 0-D feature, the response collection
  of the 0-D feature iterated last is a numpy array, and the collection of every other
  feature, 0-D, 1-D or 2-D, is still the Python list with one value per node; the one
  exception is the 1-D feature directComparison of an adaptive model, whose collection is
  the array built by the interpolation.
\<close>

theorem only_last_0d_feature_is_array:
  assumes ok: "storeResults adaptive solves d = Inr d'"
    and nonempty: "features_0d d' \<noteq> []"
  shows "(\<exists>us. data_U d' (last (features_0d d')) = Some (NpArray us) \<and> length us = length solves)
     \<and> (\<forall>f\<in>set (features_0d d' @ features_1d d' @ features_2d d').
           f \<noteq> last (features_0d d') \<longrightarrow>
           \<not> (adaptive \<and> f = ''directComparison'' \<and> f \<in> set (features_1d d')) \<longrightarrow>
           (\<exists>us. data_U d' f = Some (PyList us) \<and> length us = length solves))"
proof -
  let ?n = "length solves"
  from ok obtain s0 rest b2 d2 b1 d1 b0 d0 where
    s: "solves = s0 # rest"
    and l2: "for_features (body_2d adaptive solves) (features_2d (setFeatures s0 d)) (None, setFeatures s0 d) = Inr (b2, d2)"
    and l1: "for_features (body_1d adaptive solves) (features_1d d2) (b2, d2) = Inr (b1, d1)"
    and l0: "for_features (body_0d solves) (features_0d d1) (b1, d1) = Inr (b0, d0)"
    and c: "convert_last (b0, d0) = Inr d'"
    by (rule storeResults_Inr)
  from convert_last_Inr [OF c] obtain lf u where lf: "b0 = Some lf" and u: "data_U d0 lf = Some u"
    and d': "d' = d0\<lparr>data_U := (data_U d0)(lf \<mapsto> np_array u)\<rparr>"
    by blast
  have f2: "same_features (setFeatures s0 d) d2" using l2 by (rule loop_2d_features)
  have f1: "same_features d2 d1" using l1 by (rule loop_1d_features)
  have f0: "same_features d1 d0" using l0 by (rule loop_0d_features)
  have fd: "features_0d d' = features_0d d0" "features_1d d' = features_1d d0"
    "features_2d d' = features_2d d0"
    by (simp_all add: d')
  have feats0: "features_0d d1 = features_0d d'"
    using f0 fd by (simp add: same_features_def)
  have feats1: "features_1d d2 = features_1d d'"
    using f0 f1 fd by (simp add: same_features_def)
  have feats2: "features_2d (setFeatures s0 d) = features_2d d'"
    using f0 f1 f2 fd by (simp add: same_features_def)
  have ne: "features_0d d1 \<noteq> []" using nonempty feats0 by simp
  have "b0 = Some (last (features_0d d1))"
    using for_features_bound [OF l0] ne by simp
  with lf have lastf: "lf = last (features_0d d1)" by simp
  then have "lf \<in> set (features_0d d1)" using ne by simp
  from for_features_establish [OF l0 this same_0d keep_0d]
  have "holds_list ?n lf d0" .
  with u obtain us where us: "u = PyList us" "length us = ?n"
    by (auto simp: holds_list_def)
  have "data_U d' lf = Some (np_array u)" by (simp add: d')
  with us have "data_U d' lf = Some (NpArray us) \<and> length us = ?n" by simp
  then have first: "\<exists>us. data_U d' (last (features_0d d')) = Some (NpArray us) \<and> length us = ?n"
    using lastf feats0 by auto
  have second: "\<exists>us. data_U d' f = Some (PyList us) \<and> length us = ?n"
    if mem: "f \<in> set (features_0d d' @ features_1d d' @ features_2d d')"
      and neq: "f \<noteq> last (features_0d d')"
      and nad: "\<not> (adaptive \<and> f = ''directComparison'' \<and> f \<in> set (features_1d d'))" for f
  proof -
    have nad': "\<not> (adaptive \<and> f = ''directComparison'' \<and> f \<in> set (features_1d d2))"
      using nad feats1 by simp
    have "holds_list ?n f d0"
    proof (cases "f \<in> set (features_0d d1)")
      case True
      from for_features_establish [OF l0 True same_0d keep_0d] show ?thesis .
    next
      case n0: False
      have "holds_list ?n f d1"
      proof (cases "f \<in> set (features_1d d2)")
        case True
        with nad' have "\<not> (adaptive \<and> f = ''directComparison'')" by blast
        from for_features_establish [OF l1 True same_1d [OF this] keep_1d [OF nad']]
        show ?thesis .
      next
        case False
        with n0 mem feats0 feats1 feats2 have m2: "f \<in> set (features_2d (setFeatures s0 d))"
          by auto
        from for_features_establish [OF l2 m2 same_2d keep_2d]
        have "holds_list ?n f d2" .
        from for_features_invariant [OF l1 this keep_1d [OF nad']] show ?thesis .
      qed
      from for_features_invariant [OF l0 this keep_0d] show ?thesis .
    qed
    moreover have "f \<noteq> lf" using neq lastf feats0 by simp
    then have "data_U d' f = data_U d0 f" by (simp add: d')
    ultimately show ?thesis by (simp add: holds_list_def)
  qed
  from first second show ?thesis by blast
qed

subsection \<open>Example runs, the 2-D guard and the interpolation\<close>

lemma ex_adaptive_solves:
  "snd (evaluateNodes worker_adaptive (rm_adaptive\<lparr>data := resetValues (data rm_adaptive)\<rparr>) [0, 1])
     = Inr [adaptive_node0, adaptive_node1]"
  by (simp add: evaluateNodes_def evaluateNodeFunctionList_def Let_def Pool_def rm_adaptive_def rm0_def)

lemma ex_adaptive_run:
  "snd (run worker_adaptive rm_adaptive [0, 1]) =
     storeResults True [adaptive_node0, adaptive_node1] (resetValues (data rm_adaptive))"
  using run_storeResults [OF ex_adaptive_solves] by (simp add: rm_adaptive_def)

lemma ex_adaptive_features:
  "setFeatures adaptive_node0 (resetValues (data rm_adaptive)) =
     (resetValues (data rm_adaptive))\<lparr>features_0d := [''nr_spikes'', ''rate''],
        features_1d := [''directComparison'', ''amplitude''], features_2d := [''voltage'']\<rparr>"
  by (simp add: setFeatures_def adaptive_node0_def ndim_def)

lemma ex_adaptive_result:
  "storeResults True [adaptive_node0, adaptive_node1] (resetValues (data rm_adaptive)) = Inr ex_store"
  apply (simp add: storeResults_def Let_def ex_adaptive_features isAdaptiveError_def)
  apply (simp add: body_2d_def body_1d_def body_0d_def store_from_first_def convert_last_def
      performInterpolation_def argmax_def times2_def
      adaptive_node0_def adaptive_node1_def Let_def resetValues_def rm_adaptive_def rm0_def ex_store_def)
  done

text \<open>Claim C8, amended, at a batch of two nodes that both return, on a pool of one process.\<close>

theorem display_brackets_complete_batch_witness:
  "supress_model_graphics rm0 \<and> CPUs rm0 = 1
   \<and> map worker0 (evaluateNodeFunctionList rm0 [0, 1]) = [Inr node0, Inr node1]
   \<and> (\<exists>solves.
         evaluateNodes worker0 rm0 [0, 1] =
           ([Xvfb_start, Pool_create (CPUs rm0), Pool_imap (evaluateNodeFunctionList rm0 [0, 1])]
              @ map Solves_append [0..<length [0::nat, 1]]
              @ [Pool_close, Xvfb_stop],
            Inr solves)
       \<and> map worker0 (evaluateNodeFunctionList rm0 [0, 1]) = map Inr solves
       \<and> length solves = length [0::nat, 1])"
proof -
  have a: "supress_model_graphics rm0" by (simp add: rm0_def)
  have b: "1 \<le> CPUs rm0" by (simp add: rm0_def)
  have m: "map worker0 (evaluateNodeFunctionList rm0 [0, 1]) = [Inr node0, Inr node1]"
    by (simp add: evaluateNodeFunctionList_def)
  have c: "\<forall>task\<in>set (evaluateNodeFunctionList rm0 [0, 1]). \<exists>r. worker0 task = Inr r"
    by (simp add: evaluateNodeFunctionList_def)
  have d: "CPUs rm0 = 1" by (simp add: rm0_def)
  from display_brackets_complete_batch [OF a b c] a d m show ?thesis by blast
qed

text \<open>
  Claim C8 as stated fails: when the second of two node evaluations raises, the display
  has been started once and is never stopped.
\<close>

theorem display_not_stopped_counterexample:
  "supress_model_graphics rm0
   \<and> snd (evaluateNodes worker_fails rm0 [0, 1]) = Inl TypeError
   \<and> fst (evaluateNodes worker_fails rm0 [0, 1]) =
        [Xvfb_start, Pool_create 1, Pool_imap (evaluateNodeFunctionList rm0 [0, 1]), Solves_append 0]
   \<and> count_list (fst (evaluateNodes worker_fails rm0 [0, 1])) Xvfb_start = 1
   \<and> count_list (fst (evaluateNodes worker_fails rm0 [0, 1])) Xvfb_stop = 0"
  by (simp add: evaluateNodes_def evaluateNodeFunctionList_def Let_def Pool_def rm0_def)

text \<open>Claim C10 at the example run: of the five features only \<^verbatim>\<open>rate\<close> is converted.\<close>

theorem only_last_0d_feature_is_array_witness:
  "storeResults True [adaptive_node0, adaptive_node1] (resetValues (data rm_adaptive)) = Inr ex_store
   \<and> features_0d ex_store \<noteq> []
   \<and> last (features_0d ex_store) = ''rate''
   \<and> (\<exists>us. data_U ex_store (last (features_0d ex_store)) = Some (NpArray us)
          \<and> length us = length [adaptive_node0, adaptive_node1])
   \<and> (\<exists>us. data_U ex_store ''nr_spikes'' = Some (PyList us)
          \<and> length us = length [adaptive_node0, adaptive_node1])
   \<and> (\<exists>us. data_U ex_store ''amplitude'' = Some (PyList us)
          \<and> length us = length [adaptive_node0, adaptive_node1])
   \<and> (\<exists>us. data_U ex_store ''voltage'' = Some (PyList us)
          \<and> length us = length [adaptive_node0, adaptive_node1])
   \<and> data_U ex_store ''directComparison'' = Some (NpArray [NdArray [3] [0, 2, 4], NdArray [3] [0, 2, 4]])"
proof -
  have a: "features_0d ex_store \<noteq> []" by (simp add: ex_store_def)
  have b: "last (features_0d ex_store) = ''rate''" by (simp add: ex_store_def)
  have c: "data_U ex_store ''directComparison''
      = Some (NpArray [NdArray [3] [0, 2, 4], NdArray [3] [0, 2, 4]])"
    by (simp add: ex_store_def)
  from only_last_0d_feature_is_array [OF ex_adaptive_result a]
  have f: "\<exists>us. data_U ex_store (last (features_0d ex_store)) = Some (NpArray us)
          \<and> length us = length [adaptive_node0, adaptive_node1]"
    and g: "\<forall>f\<in>set (features_0d ex_store @ features_1d ex_store @ features_2d ex_store).
          f \<noteq> last (features_0d ex_store) \<longrightarrow>
          \<not> (True \<and> f = ''directComparison'' \<and> f \<in> set (features_1d ex_store)) \<longrightarrow>
          (\<exists>us. data_U ex_store f = Some (PyList us)
             \<and> length us = length [adaptive_node0, adaptive_node1])"
    by blast+
  have m: "''nr_spikes'' \<in> set (features_0d ex_store @ features_1d ex_store @ features_2d ex_store)"
    "''amplitude'' \<in> set (features_0d ex_store @ features_1d ex_store @ features_2d ex_store)"
    "''voltage'' \<in> set (features_0d ex_store @ features_1d ex_store @ features_2d ex_store)"
    by (simp_all add: ex_store_def)
  from g m(1) b have g1: "\<exists>us. data_U ex_store ''nr_spikes'' = Some (PyList us)
          \<and> length us = length [adaptive_node0, adaptive_node1]" by force
  from g m(2) b have g2: "\<exists>us. data_U ex_store ''amplitude'' = Some (PyList us)
          \<and> length us = length [adaptive_node0, adaptive_node1]" by force
  from g m(3) b have g3: "\<exists>us. data_U ex_store ''voltage'' = Some (PyList us)
          \<and> length us = length [adaptive_node0, adaptive_node1]" by force
  from ex_adaptive_result a b f g1 g2 g3 c show ?thesis by blast
qed

text \<open>
  Claim C1 as stated fails: in the example run of an adaptive model the 1-D feature
  \<^verbatim>\<open>amplitude\<close> keeps the time basis of the first node, of two points, although the
  second node has three, and its stored series have two and three values.
\<close>

theorem adaptive_other_1d_feature_counterexample:
  "adaptive_model rm_adaptive
   \<and> raised (snd (run worker_adaptive rm_adaptive [0, 1])) = None
   \<and> features_1d (store_after (snd (run worker_adaptive rm_adaptive [0, 1])))
        = [''directComparison'', ''amplitude'']
   \<and> map_of adaptive_node0 ''amplitude'' = Some (Tuple2 (Some (NdArray [2] [0, 1])) (NdArray [2] [7, 8]))
   \<and> map_of adaptive_node1 ''amplitude'' = Some (Tuple2 (Some (NdArray [3] [0, 1, 2])) (NdArray [3] [7, 8, 9]))
   \<and> data_t (store_after (snd (run worker_adaptive rm_adaptive [0, 1]))) ''amplitude''
        = Some (Some (NdArray [2] [0, 1]))
   \<and> data_U (store_after (snd (run worker_adaptive rm_adaptive [0, 1]))) ''amplitude''
        = Some (PyList [NdArray [2] [7, 8], NdArray [3] [7, 8, 9]])"
  unfolding ex_adaptive_run ex_adaptive_result
  by (simp add: raised_def store_after_def ex_store_def adaptive_node0_def adaptive_node1_def
      rm_adaptive_def)





lemma body_1d_frame:
  "body_1d adaptive solves g d = Inr d' \<Longrightarrow> f \<noteq> g \<Longrightarrow>
   data_U d' f = data_U d f \<and> data_t d' f = data_t d f"
  by (drule body_1d_Inr) (auto split: if_splits)

lemma body_0d_frame:
  "body_0d solves g d = Inr d' \<Longrightarrow> f \<noteq> g \<Longrightarrow>
   data_U d' f = data_U d f \<and> data_t d' f = data_t d f"
  by (drule body_0d_Inr) auto



lemma argmax_loop_props:
  assumes "length pre = i" "best < i" "pre ! best = bv"
    and "\<forall>j<i. pre ! j \<le> bv" "\<forall>j<best. pre ! j < bv"
  shows "argmax_loop xs i best bv < length (pre @ xs)
     \<and> (\<forall>j<length (pre @ xs). (pre @ xs) ! j \<le> (pre @ xs) ! argmax_loop xs i best bv)
     \<and> (\<forall>j<argmax_loop xs i best bv. (pre @ xs) ! j < (pre @ xs) ! argmax_loop xs i best bv)"
  using assms
proof (induction xs arbitrary: pre i best bv)
  case Nil
  then show ?case by simp
next
  case (Cons x xs)
  let ?pre = "pre @ [x]"
  have len: "length ?pre = Suc i" using Cons.prems(1) by simp
  show ?case
  proof (cases "bv < x")
    case True
    have a: "i < Suc i" by simp
    have b: "?pre ! i = x" using Cons.prems(1) [symmetric] by simp
    have c: "\<forall>j<Suc i. ?pre ! j \<le> x"
      using Cons.prems(1,4) True by (auto simp: nth_append less_Suc_eq)
    have d: "\<forall>j<i. ?pre ! j < x"
      using Cons.prems(1,4) True by (auto simp: nth_append intro: le_less_trans)
    from Cons.IH [OF len a b c d] True show ?thesis by simp
  next
    case False
    have a: "best < Suc i" using Cons.prems(2) by simp
    have b: "?pre ! best = bv" using Cons.prems(1,2,3) by (simp add: nth_append)
    have c: "\<forall>j<Suc i. ?pre ! j \<le> bv"
      using Cons.prems(1,4) False by (auto simp: nth_append less_Suc_eq)
    have d: "\<forall>j<best. ?pre ! j < bv"
      using Cons.prems(1,2,5) by (auto simp: nth_append)
    from Cons.IH [OF len a b c d] False show ?thesis by simp
  qed
qed

lemma argmax_Inr:
  assumes "argmax xs = Inr k"
  shows "k < length xs \<and> (\<forall>j<length xs. xs ! j \<le> xs ! k) \<and> (\<forall>j<k. xs ! j < xs ! k)"
proof -
  from assms obtain x ys where xs: "xs = x # ys" and k: "k = argmax_loop ys 1 0 x"
    by (cases xs) (auto simp: argmax_def)
  from argmax_loop_props [of "[x]" 1 0 x ys] show ?thesis
    unfolding xs k by simp
qed

lemma lengths_loop_Inr:
  "lengths_loop ts acc = Inr ls \<Longrightarrow>
   \<exists>ns. ls = acc @ ns \<and> length ns = length ts \<and> (\<forall>j<length ts. len (ts ! j) = Inr (ns ! j))"
proof (induction ts arbitrary: acc)
  case Nil
  then show ?case by simp
next
  case (Cons s ts)
  from Cons.prems obtain n where n: "len s = Inr n" and r: "lengths_loop ts (acc @ [n]) = Inr ls"
    by (auto split: sum.splits)
  from Cons.IH [OF r] obtain ns where ns: "ls = (acc @ [n]) @ ns" "length ns = length ts"
    "\<forall>j<length ts. len (ts ! j) = Inr (ns ! j)" by blast
  have "ls = acc @ (n # ns)" using ns(1) by simp
  moreover have "length (n # ns) = length (s # ts)" using ns(2) by simp
  moreover have "\<forall>j<length (s # ts). len ((s # ts) ! j) = Inr ((n # ns) ! j)"
    using ns(3) n by (auto simp: nth_Cons split: nat.splits)
  ultimately show ?case by blast
qed

lemma interpolation_loop_Inr:
  "interpolation_loop is t acc = Inr us \<Longrightarrow>
   \<exists>fs. is = map Some fs \<and> us = acc @ map (\<lambda>f. f t) fs"
proof (induction "is" t acc rule: interpolation_loop.induct)
  case (1 t acc)
  then show ?case by simp
next
  case (2 "is" t acc)
  then show ?case by simp
next
  case (3 interp "is" t acc)
  from "3.prems" have "interpolation_loop is t (acc @ [interp t]) = Inr us" by simp
  from "3.IH" [OF this] obtain fs where "is = map Some fs" "us = (acc @ [interp t]) @ map (\<lambda>f. f t) fs"
    by blast
  then have "Some interp # is = map Some (interp # fs) \<and> us = acc @ map (\<lambda>f. f t) (interp # fs)"
    by simp
  then show ?case by (rule exI [of _ "interp # fs"])
qed

lemma gather_loop_Inr:
  "gather_loop f solves (ts, is) = Inr (ts', is') \<Longrightarrow>
   \<exists>rs js. length rs = length solves \<and> length js = length solves
     \<and> (\<forall>k<length solves. map_of (solves ! k) f = Some (rs ! k) \<and> item2 (rs ! k) = Inr (js ! k))
     \<and> ts' = ts @ map item0 rs \<and> is' = is @ js"
proof (induction solves arbitrary: ts "is")
  case Nil
  then show ?case by simp
next
  case (Cons solved solves)
  from Cons.prems obtain r j where r: "map_of solved f = Some r" and j: "item2 r = Inr j"
    and g: "gather_loop f solves (ts @ [item0 r], is @ [j]) = Inr (ts', is')"
    by (auto split: option.splits sum.splits)
  from Cons.IH [OF g] obtain rs js where rs: "length rs = length solves" "length js = length solves"
    "\<forall>k<length solves. map_of (solves ! k) f = Some (rs ! k) \<and> item2 (rs ! k) = Inr (js ! k)"
    "ts' = (ts @ [item0 r]) @ map item0 rs" "is' = (is @ [j]) @ js" by blast
  have "length (r # rs) = length (solved # solves) \<and> length (j # js) = length (solved # solves)
     \<and> (\<forall>k<length (solved # solves). map_of ((solved # solves) ! k) f = Some ((r # rs) ! k)
           \<and> item2 ((r # rs) ! k) = Inr ((j # js) ! k))
     \<and> ts' = ts @ map item0 (r # rs) \<and> is' = is @ (j # js)"
    using rs r j by (auto simp: nth_Cons split: nat.splits)
  then show ?case by blast
qed

lemma performInterpolation_Inr:
  assumes "performInterpolation ts is = Inr (t, us)"
  shows "\<exists>k ns fs. k < length ts \<and> t = ts ! k \<and> length ns = length ts
     \<and> (\<forall>j<length ts. len (ts ! j) = Inr (ns ! j))
     \<and> (\<forall>j<length ts. ns ! j \<le> ns ! k) \<and> (\<forall>j<k. ns ! j < ns ! k)
     \<and> is = map Some fs \<and> us = NpArray (map (\<lambda>f. f t) fs)"
proof -
  from assms obtain ls where ls: "lengths_loop ts [] = Inr ls"
    by (cases "lengths_loop ts []") (auto simp: performInterpolation_def)
  from assms ls obtain k where k: "argmax ls = Inr k"
    by (cases "argmax ls") (auto simp: performInterpolation_def)
  from assms ls k obtain vs where vs: "interpolation_loop is (ts ! k) [] = Inr vs"
    by (cases "interpolation_loop is (ts ! k) []") (auto simp: performInterpolation_def Let_def)
  from assms ls k vs have t: "t = ts ! k" and us: "us = NpArray vs"
    by (auto simp: performInterpolation_def Let_def)
  from lengths_loop_Inr [OF ls] have n: "length ls = length ts"
    "\<forall>j<length ts. len (ts ! j) = Inr (ls ! j)" by auto
  from argmax_Inr [OF k] n(1) have a: "k < length ts" "\<forall>j<length ts. ls ! j \<le> ls ! k"
    "\<forall>j<k. ls ! j < ls ! k" by auto
  from interpolation_loop_Inr [OF vs] obtain fs where fs: "is = map Some fs"
    "vs = map (\<lambda>f. f (ts ! k)) fs" by auto
  have "k < length ts \<and> t = ts ! k \<and> length ls = length ts
     \<and> (\<forall>j<length ts. len (ts ! j) = Inr (ls ! j))
     \<and> (\<forall>j<length ts. ls ! j \<le> ls ! k) \<and> (\<forall>j<k. ls ! j < ls ! k)
     \<and> is = map Some fs \<and> us = NpArray (map (\<lambda>f. f t) fs)"
    using a n t us fs by simp
  then show ?thesis by blast
qed

lemma for_features_body_ran:
  "for_features body fs (b, d) = Inr (b', d') \<Longrightarrow> f \<in> set fs \<Longrightarrow> \<exists>da db. body f da = Inr db"
proof (induction fs arbitrary: b d)
  case Nil
  then show ?case by simp
next
  case (Cons g fs)
  from Cons.prems(1) obtain d1 where b: "body g d = Inr d1"
    and r: "for_features body fs (Some g, d1) = Inr (b', d')"
    by (auto split: sum.splits)
  show ?case
  proof (cases "f = g")
    case True
    with b show ?thesis by blast
  next
    case False
    with Cons.prems(2) have "f \<in> set fs" by simp
    from Cons.IH [OF r this] show ?thesis .
  qed
qed

lemma distinct_keys_one_class:
  assumes "distinct (map fst xs)" "k \<in> set (map fst (filter P xs))" "k \<in> set (map fst (filter Q xs))"
  shows "\<exists>v. (k, v) \<in> set xs \<and> P (k, v) \<and> Q (k, v)"
proof -
  from assms(2) obtain v where v: "(k, v) \<in> set xs" "P (k, v)" by auto
  from assms(3) obtain w where w: "(k, w) \<in> set xs" "Q (k, w)" by auto
  from assms(1) v(1) w(1) have "v = w" by (rule eq_key_imp_eq_value)
  with v w show ?thesis by blast
qed

lemma setFeatures_1d_not_0d:
  assumes "distinct (map fst s0)" "f \<in> set (features_1d (setFeatures s0 d))"
  shows "f \<notin> set (features_0d (setFeatures s0 d))"
proof
  assume "f \<in> set (features_0d (setFeatures s0 d))"
  with assms distinct_keys_one_class [of s0 f "\<lambda>(f, r). ndim (item1 r) = 1" "\<lambda>(f, r). ndim (item1 r) = 0"]
  show False by (auto simp: setFeatures_def)
qed

lemma append_loop_values:
  "append_loop f solves us = (None, us') \<Longrightarrow>
   \<exists>rs. length rs = length solves \<and> (\<forall>j<length solves. map_of (solves ! j) f = Some (rs ! j))
      \<and> us' = us @ map item1 rs"
proof (induction solves arbitrary: us)
  case Nil
  then show ?case by simp
next
  case (Cons solved solves)
  from Cons.prems obtain r where r: "map_of solved f = Some r"
    and a: "append_loop f solves (us @ [item1 r]) = (None, us')"
    by (auto split: option.splits)
  from Cons.IH [OF a] obtain rs where rs: "length rs = length solves"
    "\<forall>j<length solves. map_of (solves ! j) f = Some (rs ! j)" "us' = (us @ [item1 r]) @ map item1 rs"
    by blast
  have "length (r # rs) = length (solved # solves)
     \<and> (\<forall>j<length (solved # solves). map_of ((solved # solves) ! j) f = Some ((r # rs) ! j))
     \<and> us' = us @ map item1 (r # rs)"
    using rs r by (auto simp: nth_Cons split: nat.splits)
  then show ?case by blast
qed

lemma store_from_first_values:
  assumes "store_from_first solves f d = Inr d'"
  shows "stored_as_returned solves f d'"
proof -
  from assms obtain s0 rest where s: "solves = s0 # rest"
    by (cases solves) (auto simp: store_from_first_def)
  from assms s obtain r where r: "map_of s0 f = Some r"
    by (cases "map_of s0 f") (auto simp: store_from_first_def)
  obtain err us where a: "append_loop f solves [] = (err, us)"
    by (cases "append_loop f solves []") auto
  with assms s r have e: "err = None"
    by (cases err) (auto simp: store_from_first_def Let_def)
  from append_loop_values [OF a [unfolded e]] obtain rs where rs: "length rs = length solves"
    "\<forall>j<length solves. map_of (solves ! j) f = Some (rs ! j)" "us = map item1 rs" by auto
  from rs(2) s r have "rs ! 0 = r" by auto
  moreover from assms s r a e
  have "d' = d\<lparr>data_t := (data_t d)(f \<mapsto> item0 r), data_U := (data_U d)(f \<mapsto> PyList us)\<rparr>"
    by (auto simp: store_from_first_def Let_def)
  ultimately show ?thesis unfolding stored_as_returned_def using rs by auto
qed

lemma body_1d_values:
  "body_1d adaptive solves f d = Inr d' \<Longrightarrow> f \<noteq> ''directComparison'' \<Longrightarrow> stored_as_returned solves f d'"
  by (rule store_from_first_values [of solves f d]) (simp add: body_1d_def)

text \<open>
  What a call of storeResults that returns leaves for a 1-D feature of an adaptive model
  other than directComparison.
\<close>

lemma other_1d_feature_stored:
  assumes ok: "storeResults True solves d = Inr d'"
    and f1: "f \<in> set (features_1d d')" and ne: "f \<noteq> ''directComparison''"
    and keys: "distinct (map fst (hd solves))"
  shows "\<exists>rs st. length rs = length solves
      \<and> (\<forall>j<length solves. map_of (solves ! j) f = Some (rs ! j))
      \<and> data_t d' f = Some (item0 (rs ! 0))
      \<and> data_U d' f = Some st \<and> rows st = map item1 rs"
proof -
  from ok obtain s0 rest b2 d2 b1 d1 b0 d0 where
    s: "solves = s0 # rest"
    and l2: "for_features (body_2d True solves) (features_2d (setFeatures s0 d)) (None, setFeatures s0 d) = Inr (b2, d2)"
    and l1: "for_features (body_1d True solves) (features_1d d2) (b2, d2) = Inr (b1, d1)"
    and l0: "for_features (body_0d solves) (features_0d d1) (b1, d1) = Inr (b0, d0)"
    and c: "convert_last (b0, d0) = Inr d'"
    by (rule storeResults_Inr)
  from convert_last_Inr [OF c] obtain lf u where u: "data_U d0 lf = Some u"
    and d': "d' = d0\<lparr>data_U := (data_U d0)(lf \<mapsto> np_array u)\<rparr>"
    by blast
  have f2: "same_features (setFeatures s0 d) d2" using l2 by (rule loop_2d_features)
  have f1': "same_features d2 d1" using l1 by (rule loop_1d_features)
  have f0: "same_features d1 d0" using l0 by (rule loop_0d_features)
  have fd: "features_1d d' = features_1d d0" by (simp add: d')
  have m1: "f \<in> set (features_1d d2)"
    using f1 f0 f1' fd by (simp add: same_features_def)
  then have "f \<in> set (features_1d (setFeatures s0 d))"
    using f2 by (simp add: same_features_def)
  with keys s have "f \<notin> set (features_0d (setFeatures s0 d))"
    by (simp add: setFeatures_1d_not_0d)
  then have n0: "f \<notin> set (features_0d d1)"
    using f2 f1' by (simp add: same_features_def)
  let ?P = "stored_as_returned solves f"
  have est: "\<forall>x y. body_1d True solves f x = Inr y \<longrightarrow> ?P y"
    using body_1d_values [OF _ ne] by blast
  have keep1: "\<forall>g\<in>set (features_1d d2). \<forall>x y. body_1d True solves g x = Inr y \<longrightarrow> ?P x \<longrightarrow> ?P y"
  proof (intro ballI allI impI)
    fix g x y assume b: "body_1d True solves g x = Inr y" and "?P x"
    show "?P y"
    proof (cases "g = f")
      case True
      with b est show ?thesis by blast
    next
      case False
      then have "f \<noteq> g" by blast
      from body_1d_frame [OF b this] \<open>?P x\<close> show ?thesis by (simp add: stored_as_returned_def)
    qed
  qed
  have keep0: "\<forall>g\<in>set (features_0d d1). \<forall>x y. body_0d solves g x = Inr y \<longrightarrow> ?P x \<longrightarrow> ?P y"
  proof (intro ballI allI impI)
    fix g x y assume "g \<in> set (features_0d d1)" and b: "body_0d solves g x = Inr y" and "?P x"
    with n0 have "f \<noteq> g" by blast
    from body_0d_frame [OF b this] \<open>?P x\<close> show "?P y" by (simp add: stored_as_returned_def)
  qed
  from for_features_establish [OF l1 m1 est keep1] have "?P d1" .
  from for_features_invariant [OF l0 this keep0] have "?P d0" .
  then obtain rs where rs: "length rs = length solves"
    "\<forall>j<length solves. map_of (solves ! j) f = Some (rs ! j)"
    "data_t d0 f = Some (item0 (rs ! 0))" "data_U d0 f = Some (PyList (map item1 rs))"
    unfolding stored_as_returned_def by blast
  have t': "data_t d' f = Some (item0 (rs ! 0))" using rs(3) by (simp add: d')
  have "\<exists>st. data_U d' f = Some st \<and> rows st = map item1 rs"
  proof (cases "lf = f")
    case True
    with u rs(4) have "u = PyList (map item1 rs)" by simp
    with True show ?thesis by (simp add: d')
  next
    case False
    with rs(4) show ?thesis by (simp add: d')
  qed
  with rs(1,2) t' show ?thesis by blast
qed

text \<open>
  What a call of storeResults that returns leaves for the 1-D feature directComparison of
  an adaptive model: \<open>rs\<close> are the tuples the nodes returned for it, \<open>is\<close> their
  interpolants, and \<open>k\<close> is the first node whose time basis is longest.
\<close>

lemma directComparison_interpolated:
  assumes ok: "storeResults True solves d = Inr d'"
    and dc1: "''directComparison'' \<in> set (features_1d d')"
    and keys: "distinct (map fst (hd solves))"
  shows "\<exists>rs is k n. length rs = length solves \<and> length is = length solves
      \<and> (\<forall>j<length solves. map_of (solves ! j) ''directComparison'' = Some (rs ! j)
            \<and> item2 (rs ! j) = Inr (Some (is ! j)))
      \<and> k < length solves \<and> len (item0 (rs ! k)) = Inr n
      \<and> (\<forall>j<length solves. \<exists>m. len (item0 (rs ! j)) = Inr m \<and> m \<le> n)
      \<and> (\<forall>j<k. \<exists>m. len (item0 (rs ! j)) = Inr m \<and> m < n)
      \<and> data_t d' ''directComparison'' = Some (item0 (rs ! k))
      \<and> data_U d' ''directComparison'' = Some (NpArray (map (\<lambda>i. i (item0 (rs ! k))) is))"
proof -
  let ?dc = "''directComparison''"
  from ok obtain s0 rest b2 d2 b1 d1 b0 d0 where
    s: "solves = s0 # rest"
    and l2: "for_features (body_2d True solves) (features_2d (setFeatures s0 d)) (None, setFeatures s0 d) = Inr (b2, d2)"
    and l1: "for_features (body_1d True solves) (features_1d d2) (b2, d2) = Inr (b1, d1)"
    and l0: "for_features (body_0d solves) (features_0d d1) (b1, d1) = Inr (b0, d0)"
    and c: "convert_last (b0, d0) = Inr d'"
    by (rule storeResults_Inr)
  from convert_last_Inr [OF c] obtain lf u where u: "data_U d0 lf = Some u"
    and d': "d' = d0\<lparr>data_U := (data_U d0)(lf \<mapsto> np_array u)\<rparr>"
    by blast
  have f2: "same_features (setFeatures s0 d) d2" using l2 by (rule loop_2d_features)
  have f1: "same_features d2 d1" using l1 by (rule loop_1d_features)
  have f0: "same_features d1 d0" using l0 by (rule loop_0d_features)
  have fd: "features_0d d' = features_0d d0" "features_1d d' = features_1d d0"
    by (simp_all add: d')
  have m1: "?dc \<in> set (features_1d d2)"
    using dc1 f0 f1 fd by (simp add: same_features_def)
  then have "?dc \<in> set (features_1d (setFeatures s0 d))"
    using f2 by (simp add: same_features_def)
  with keys s have "?dc \<notin> set (features_0d (setFeatures s0 d))"
    by (simp add: setFeatures_1d_not_0d)
  then have n0: "?dc \<notin> set (features_0d d1)"
    using f2 f1 by (simp add: same_features_def)
  from for_features_body_ran [OF l1 m1] obtain da db where
    "body_1d True solves ?dc da = Inr db" by blast
  from body_1d_Inr [OF this] obtain ts "is" t us where
    g: "gather_loop ?dc solves ([], []) = Inr (ts, is)"
    and p: "performInterpolation ts is = Inr (t, us)"
    by auto
  define P where "P = (\<lambda>x :: 'a Data. data_t x ?dc = Some t \<and> data_U x ?dc = Some us)"
  have est: "\<forall>x y. body_1d True solves ?dc x = Inr y \<longrightarrow> P y"
  proof (intro allI impI)
    fix x y assume "body_1d True solves ?dc x = Inr y"
    from body_1d_Inr [OF this] g p show "P y" by (auto simp: P_def)
  qed
  have keep1: "\<forall>f\<in>set (features_1d d2). \<forall>x y. body_1d True solves f x = Inr y \<longrightarrow> P x \<longrightarrow> P y"
  proof (intro ballI allI impI)
    fix f x y assume b: "body_1d True solves f x = Inr y" and "P x"
    show "P y"
    proof (cases "f = ?dc")
      case True
      with b est show ?thesis by blast
    next
      case False
      then have "?dc \<noteq> f" by blast
      from body_1d_frame [OF b this] \<open>P x\<close> show ?thesis by (simp add: P_def)
    qed
  qed
  have keep0: "\<forall>f\<in>set (features_0d d1). \<forall>x y. body_0d solves f x = Inr y \<longrightarrow> P x \<longrightarrow> P y"
  proof (intro ballI allI impI)
    fix f x y assume "f \<in> set (features_0d d1)" and b: "body_0d solves f x = Inr y" and "P x"
    with n0 have "?dc \<noteq> f" by blast
    from body_0d_frame [OF b this] \<open>P x\<close> show "P y" by (simp add: P_def)
  qed
  from for_features_establish [OF l1 m1 est keep1] have "P d1" .
  from for_features_invariant [OF l0 this keep0] have P0: "P d0" .
  from performInterpolation_Inr [OF p] obtain k ns fs where
    k: "k < length ts" "t = ts ! k" "length ns = length ts"
    and lens: "\<forall>j<length ts. len (ts ! j) = Inr (ns ! j)"
    and mx: "\<forall>j<length ts. ns ! j \<le> ns ! k"
    and first: "\<forall>j<k. ns ! j < ns ! k"
    and fs: "is = map Some fs" "us = NpArray (map (\<lambda>f. f t) fs)"
    by blast
  from gather_loop_Inr [OF g] obtain rs js where
    rs: "length rs = length solves" "length js = length solves"
    and look: "\<forall>j<length solves. map_of (solves ! j) ?dc = Some (rs ! j) \<and> item2 (rs ! j) = Inr (js ! j)"
    and ts: "ts = map item0 rs" and js: "is = js"
    by auto
  have lts: "length ts = length solves" using ts rs by simp
  have lfs: "length fs = length solves" using fs(1) js rs(2) by (metis length_map)
  have U': "data_U d' ?dc = Some us"
  proof (cases "lf = ?dc")
    case True
    with u P0 have "u = us" by (simp add: P_def)
    with True fs(2) show ?thesis by (simp add: d')
  next
    case False
    with P0 show ?thesis by (simp add: d' P_def)
  qed
  have t': "data_t d' ?dc = Some t" using P0 by (simp add: d' P_def)
  have kk: "k < length solves" using k(1) lts by simp
  have tk: "t = item0 (rs ! k)" using k(2) ts kk rs(1) by simp
  have lj: "len (item0 (rs ! j)) = Inr (ns ! j)" if "j < length solves" for j
    using lens that lts ts rs(1) by (metis nth_map)
  have look': "\<forall>j<length solves. map_of (solves ! j) ?dc = Some (rs ! j)
      \<and> item2 (rs ! j) = Inr (Some (fs ! j))"
  proof (intro allI impI)
    fix j assume j: "j < length solves"
    then have "js ! j = Some (fs ! j)" using fs(1) js lfs by simp
    with look j show "map_of (solves ! j) ?dc = Some (rs ! j) \<and> item2 (rs ! j) = Inr (Some (fs ! j))"
      by simp
  qed
  have all: "\<forall>j<length solves. \<exists>m. len (item0 (rs ! j)) = Inr m \<and> m \<le> ns ! k"
    using lj mx lts by simp
  have before: "\<forall>j<k. \<exists>m. len (item0 (rs ! j)) = Inr m \<and> m < ns ! k"
    using lj first kk by simp
  have "length rs = length solves \<and> length fs = length solves
      \<and> (\<forall>j<length solves. map_of (solves ! j) ?dc = Some (rs ! j)
            \<and> item2 (rs ! j) = Inr (Some (fs ! j)))
      \<and> k < length solves \<and> len (item0 (rs ! k)) = Inr (ns ! k)
      \<and> (\<forall>j<length solves. \<exists>m. len (item0 (rs ! j)) = Inr m \<and> m \<le> ns ! k)
      \<and> (\<forall>j<k. \<exists>m. len (item0 (rs ! j)) = Inr m \<and> m < ns ! k)
      \<and> data_t d' ?dc = Some (item0 (rs ! k))
      \<and> data_U d' ?dc = Some (NpArray (map (\<lambda>i. i (item0 (rs ! k))) fs))"
    using rs(1) lfs look' kk lj [OF kk] all before t' U' fs(2) tk by simp
  then show ?thesis by blast
qed

text \<open>
  Claim C1, amended.  Of the 1-D features of an adaptive model, storeResults interpolates
  the one named directComparison.  When the call returns, the time basis stored for it is
  the native time basis of the first node whose basis is longest, and the stored
  collection is the array whose row for each node, in node order, is what that node's
  interpolant returns on this basis; with interpolants that return an array as long as
  their argument, every row is as long as the basis.  For every other 1-D feature the
  stored time basis is the one of the first node, and the stored collection holds what each
  node returned, in node order, not interpolated.
\<close>

theorem directComparison_on_longest_basis:
  assumes ok: "storeResults True solves d = Inr d'"
    and keys: "distinct (map fst (hd solves))"
    and interp: "\<forall>solved\<in>set solves. \<forall>r i. map_of solved ''directComparison'' = Some r \<longrightarrow>
        item2 r = Inr (Some i) \<longrightarrow> (\<forall>s. len (Some (i s)) = len s)"
  shows "(''directComparison'' \<in> set (features_1d d') \<longrightarrow>
      (\<exists>rs is k n. length rs = length solves \<and> length is = length solves
        \<and> (\<forall>j<length solves. map_of (solves ! j) ''directComparison'' = Some (rs ! j)
              \<and> item2 (rs ! j) = Inr (Some (is ! j)))
        \<and> k < length solves \<and> len (item0 (rs ! k)) = Inr n
        \<and> (\<forall>j<length solves. \<exists>m. len (item0 (rs ! j)) = Inr m \<and> m \<le> n)
        \<and> (\<forall>j<k. \<exists>m. len (item0 (rs ! j)) = Inr m \<and> m < n)
        \<and> data_t d' ''directComparison'' = Some (item0 (rs ! k))
        \<and> data_U d' ''directComparison'' = Some (NpArray (map (\<lambda>i. i (item0 (rs ! k))) is))
        \<and> (\<forall>j<length solves. len (Some ((is ! j) (item0 (rs ! k)))) = Inr n)))
    \<and> (\<forall>f\<in>set (features_1d d'). f \<noteq> ''directComparison'' \<longrightarrow>
      (\<exists>rs st. length rs = length solves
        \<and> (\<forall>j<length solves. map_of (solves ! j) f = Some (rs ! j))
        \<and> data_t d' f = Some (item0 (rs ! 0))
        \<and> data_U d' f = Some st \<and> rows st = map item1 rs))"
proof (intro conjI impI ballI)
  let ?dc = "''directComparison''"
  assume dc1: "?dc \<in> set (features_1d d')"
  from directComparison_interpolated [OF ok dc1 keys] obtain rs "is" k n where
    a: "length rs = length solves" "length is = length solves"
    and look: "\<forall>j<length solves. map_of (solves ! j) ?dc = Some (rs ! j)
            \<and> item2 (rs ! j) = Inr (Some (is ! j))"
    and k: "k < length solves" "len (item0 (rs ! k)) = Inr n"
    and b: "\<forall>j<length solves. \<exists>m. len (item0 (rs ! j)) = Inr m \<and> m \<le> n"
      "\<forall>j<k. \<exists>m. len (item0 (rs ! j)) = Inr m \<and> m < n"
      "data_t d' ?dc = Some (item0 (rs ! k))"
      "data_U d' ?dc = Some (NpArray (map (\<lambda>i. i (item0 (rs ! k))) is))"
    by blast
  have rowlen: "\<forall>j<length solves. len (Some ((is ! j) (item0 (rs ! k)))) = Inr n"
  proof (intro allI impI)
    fix j assume j: "j < length solves"
    with look have "map_of (solves ! j) ?dc = Some (rs ! j)" "item2 (rs ! j) = Inr (Some (is ! j))"
      by auto
    moreover have "solves ! j \<in> set solves" using j by simp
    ultimately have "len (Some ((is ! j) (item0 (rs ! k)))) = len (item0 (rs ! k))"
      using interp by blast
    with k(2) show "len (Some ((is ! j) (item0 (rs ! k)))) = Inr n" by simp
  qed
  have "length rs = length solves \<and> length is = length solves
        \<and> (\<forall>j<length solves. map_of (solves ! j) ?dc = Some (rs ! j)
              \<and> item2 (rs ! j) = Inr (Some (is ! j)))
        \<and> k < length solves \<and> len (item0 (rs ! k)) = Inr n
        \<and> (\<forall>j<length solves. \<exists>m. len (item0 (rs ! j)) = Inr m \<and> m \<le> n)
        \<and> (\<forall>j<k. \<exists>m. len (item0 (rs ! j)) = Inr m \<and> m < n)
        \<and> data_t d' ?dc = Some (item0 (rs ! k))
        \<and> data_U d' ?dc = Some (NpArray (map (\<lambda>i. i (item0 (rs ! k))) is))
        \<and> (\<forall>j<length solves. len (Some ((is ! j) (item0 (rs ! k)))) = Inr n)"
    using a look k b rowlen by (intro conjI)
  then show "\<exists>rs is k n. length rs = length solves \<and> length is = length solves
        \<and> (\<forall>j<length solves. map_of (solves ! j) ?dc = Some (rs ! j)
              \<and> item2 (rs ! j) = Inr (Some (is ! j)))
        \<and> k < length solves \<and> len (item0 (rs ! k)) = Inr n
        \<and> (\<forall>j<length solves. \<exists>m. len (item0 (rs ! j)) = Inr m \<and> m \<le> n)
        \<and> (\<forall>j<k. \<exists>m. len (item0 (rs ! j)) = Inr m \<and> m < n)
        \<and> data_t d' ?dc = Some (item0 (rs ! k))
        \<and> data_U d' ?dc = Some (NpArray (map (\<lambda>i. i (item0 (rs ! k))) is))
        \<and> (\<forall>j<length solves. len (Some ((is ! j) (item0 (rs ! k)))) = Inr n)"
    by blast
next
  fix f assume "f \<in> set (features_1d d')" "f \<noteq> ''directComparison''"
  from other_1d_feature_stored [OF ok this keys]
  show "\<exists>rs st. length rs = length solves
        \<and> (\<forall>j<length solves. map_of (solves ! j) f = Some (rs ! j))
        \<and> data_t d' f = Some (item0 (rs ! 0))
        \<and> data_U d' f = Some st \<and> rows st = map item1 rs" .
qed






lemma times2_len: "len (Some (times2 s)) = len s"
proof (cases s)
  case None
  then show ?thesis by (simp add: times2_def)
next
  case (Some a)
  then show ?thesis by (simp add: times2_def)
qed

text \<open>
  Claim C1, amended, at the example run: the basis of directComparison is the one of the
  second node, its rows are the interpolants on that basis, and amplitude is stored as
  the nodes returned it.
\<close>

theorem directComparison_on_longest_basis_witness:
  "storeResults True [adaptive_node0, adaptive_node1] (resetValues (data rm_adaptive)) = Inr ex_store
   \<and> features_1d ex_store = [''directComparison'', ''amplitude'']
   \<and> distinct (map fst (hd [adaptive_node0, adaptive_node1]))
   \<and> (\<forall>s. len (Some (times2 s)) = len s)
   \<and> map_of adaptive_node1 ''directComparison''
        = Some (Tuple3 (Some (NdArray [3] [0, 1, 2])) (NdArray [3] [0, 2, 4]) (Some times2))
   \<and> data_t ex_store ''directComparison'' = Some (Some (NdArray [3] [0, 1, 2]))
   \<and> data_U ex_store ''directComparison''
        = Some (NpArray [times2 (Some (NdArray [3] [0, 1, 2])), times2 (Some (NdArray [3] [0, 1, 2]))])
   \<and> (\<exists>rs is k n. length rs = length [adaptive_node0, adaptive_node1]
        \<and> length is = length [adaptive_node0, adaptive_node1]
        \<and> (\<forall>j<length [adaptive_node0, adaptive_node1].
              map_of ([adaptive_node0, adaptive_node1] ! j) ''directComparison'' = Some (rs ! j)
              \<and> item2 (rs ! j) = Inr (Some (is ! j)))
        \<and> k < length [adaptive_node0, adaptive_node1] \<and> len (item0 (rs ! k)) = Inr n
        \<and> (\<forall>j<length [adaptive_node0, adaptive_node1]. \<exists>m. len (item0 (rs ! j)) = Inr m \<and> m \<le> n)
        \<and> (\<forall>j<k. \<exists>m. len (item0 (rs ! j)) = Inr m \<and> m < n)
        \<and> data_t ex_store ''directComparison'' = Some (item0 (rs ! k))
        \<and> data_U ex_store ''directComparison'' = Some (NpArray (map (\<lambda>i. i (item0 (rs ! k))) is))
        \<and> (\<forall>j<length [adaptive_node0, adaptive_node1].
              len (Some ((is ! j) (item0 (rs ! k)))) = Inr n))
   \<and> (\<exists>rs st. length rs = length [adaptive_node0, adaptive_node1]
        \<and> (\<forall>j<length [adaptive_node0, adaptive_node1].
              map_of ([adaptive_node0, adaptive_node1] ! j) ''amplitude'' = Some (rs ! j))
        \<and> data_t ex_store ''amplitude'' = Some (item0 (rs ! 0))
        \<and> data_U ex_store ''amplitude'' = Some st \<and> rows st = map item1 rs)"
proof -
  have a: "features_1d ex_store = [''directComparison'', ''amplitude'']" by (simp add: ex_store_def)
  have b: "distinct (map fst (hd [adaptive_node0, adaptive_node1]))"
    by (simp add: adaptive_node0_def)
  have c: "\<forall>solved\<in>set [adaptive_node0, adaptive_node1]. \<forall>r i.
        map_of solved ''directComparison'' = Some r \<longrightarrow>
        item2 r = Inr (Some i) \<longrightarrow> (\<forall>s. len (Some (i s)) = len s)"
    by (auto simp: adaptive_node0_def adaptive_node1_def times2_len simp del: len.simps)
  have e: "map_of adaptive_node1 ''directComparison''
        = Some (Tuple3 (Some (NdArray [3] [0, 1, 2])) (NdArray [3] [0, 2, 4]) (Some times2))
   \<and> data_t ex_store ''directComparison'' = Some (Some (NdArray [3] [0, 1, 2]))
   \<and> data_U ex_store ''directComparison''
        = Some (NpArray [times2 (Some (NdArray [3] [0, 1, 2])), times2 (Some (NdArray [3] [0, 1, 2]))])"
    by (simp add: ex_store_def adaptive_node1_def times2_def)
  have m: "''directComparison'' \<in> set (features_1d ex_store)"
    "''amplitude'' \<in> set (features_1d ex_store)" "''amplitude'' \<noteq> ''directComparison''"
    by (simp_all add: a)
  have tl: "\<forall>s. len (Some (times2 s)) = len s" using times2_len by blast
  note e1 = e [THEN conjunct1] and e2 = e [THEN conjunct2, THEN conjunct1]
    and e3 = e [THEN conjunct2, THEN conjunct2]
  note t = directComparison_on_longest_basis [OF ex_adaptive_result b c]
  note t1 = t [THEN conjunct1, THEN mp, OF m(1)]
  note t2 = t [THEN conjunct2, THEN bspec, OF m(2), THEN mp, OF m(3)]
  show ?thesis
    by (intro conjI) (rule ex_adaptive_result a b tl e1 e2 e3 t1 t2)+
qed

section \<open>Properties of Parameter.set\_parameter\_file\<close>

declare matches.simps [simp del] sub_loop.simps [simp del] clean_loop.simps [simp del]

lemma adv_Nil [simp]: "adv p [] = p" by (simp add: adv_def)
lemma adv_nonempty: "w \<noteq> [] \<Longrightarrow> adv p w = Some (last w)" by (simp add: adv_def)









lemma tookD:
  "took rx st st' w \<Longrightarrow> snd st = w @ snd st' \<and> fst st' = adv (fst st) w"
  by (simp add: took_def)













subsection \<open>Lists\<close>




subsection \<open>Character classes\<close>









subsection \<open>Groups 1 to 3\<close>







subsection \<open>Groups 4 to 9\<close>





subsection \<open>The first match\<close>













subsection \<open>The number that has been written is found again\<close>





subsection \<open>A match found in one text is found in another\<close>




subsection \<open>The steps of the substitution\<close>










subsection \<open>The shape of the result\<close>


subsection \<open>No new match appears\<close>




subsection \<open>The second substitution changes nothing\<close>



subsection \<open>Lines\<close>







subsection \<open>What one substitution does\<close>


subsection \<open>The file\<close>






end
